theory Spec2Isabelle
  imports Main "HOL-Library.Word" "HOL-Library.Sublist" "HOL-Library.Char_ord"
    "HOL-Library.List_Lexorder"
begin

unbundle bit_operations_syntax

section \<open>Values shared by the whole program\<close>

text \<open>
  A Go byte is a HOL \<^typ>\<open>char\<close> (both are 8 bits), so a Go string and a byte slice
  are both \<^typ>\<open>string\<close>.  Every error the program can see is a constructor of
  \<open>error\<close>: the I/O errors of the operating system, the three errors built by
  \<open>getVideoCreationTimeMetadata\<close> with \<open>errors.New\<close>, the one of
  \<open>renameWithCollision\<close>, and the failures of the two libraries (\<open>time.Parse\<close>
  and the EXIF decoder).
\<close>

type_synonym byte = char

datatype error =
    EOF | EINVAL | ENOENT | ENOTDIR | EISDIR | ENOTEMPTY
  | CompressedVideo | ReferenceVideo | MovieHeaderNotFound
  | NoAvailableFilename
  | ParseError | UnknownLayout
  | ExifDecodeError | ExifMarshalError | ExifUnmarshalError

text \<open>
  A \<open>time.Time\<close> is an instant (seconds since the Unix epoch; the program never
  sets nanoseconds that it later prints) together with the location it is shown in.
\<close>

datatype location = UTC | Local

datatype time = Time (unixSec: int) (loc: location)

definition appleEpochAdjustment :: int where
  "appleEpochAdjustment = 2082844800"

definition backupSuffix :: string where
  "backupSuffix = '' - Backup Exif''"

text \<open>The global variables of the last revision of \<open>main.go\<close> (lines 372-382).\<close>

record config =
  fmtDesired :: string
  colisionMax :: nat
  pictureExtensions :: "string list"
  movieExtensions :: "string list"

definition defaultConfig :: config where
  "defaultConfig =
     \<lparr>fmtDesired = ''2006-01-02 15.04.05'',
      colisionMax = 1000000,
      pictureExtensions = [''JPG'', ''TIF'', ''BMP'', ''PNG'', ''JPEG'', ''GIF'', ''CR2'',
                           ''ARW'', ''HEIC'', ''NEF''],
      movieExtensions = [''MOV'', ''MP4'']\<rparr>"

section \<open>The atom walker\<close>

text \<open>\<open>binary.BigEndian.Uint32\<close>: the first four bytes, most significant first.\<close>

fun BigEndian_Uint32 :: "byte list \<Rightarrow> 32 word" where
  "BigEndian_Uint32 (b0 # b1 # b2 # b3 # rest) =
     push_bit 24 (word_of_nat (of_char b0)) OR push_bit 16 (word_of_nat (of_char b1))
       OR push_bit 8 (word_of_nat (of_char b2)) OR word_of_nat (of_char b3)"
| "BigEndian_Uint32 bs = 0"

text \<open>
  The \<open>io.ReadSeeker\<close> handed to the walker is an open file: its bytes and the
  current offset.  \<open>Read\<close> fills the front of the buffer with as many bytes as are
  left (at most \<open>len(buf)\<close>) and leaves the rest of the buffer as it was; it reports
  \<open>io.EOF\<close> only when no byte is left.  \<open>SeekCurrent\<close> is \<open>Seek(off, io.SeekCurrent)\<close>:
  it fails only when the new offset would be negative, and it may move past the end
  of the file.
\<close>

record stream =
  sdata :: "byte list"
  spos :: nat

definition Read :: "stream \<Rightarrow> byte list \<Rightarrow> error + (stream \<times> byte list)" where
  "Read s buf =
     (let avail = drop (spos s) (sdata s); n = min (length buf) (length avail)
      in if buf = [] then Inr (s, buf)
         else if avail = [] then Inl EOF
         else Inr (s\<lparr>spos := spos s + n\<rparr>, take n avail @ drop n buf))"

definition SeekCurrent :: "stream \<Rightarrow> int \<Rightarrow> error + stream" where
  "SeekCurrent s off =
     (let np = int (spos s) + off
      in if np < 0 then Inl EINVAL else Inr (s\<lparr>spos := nat np\<rparr>))"

text \<open>
  The first loop of \<open>getVideoCreationTimeMetadata\<close> (lines 495-506).  It has no bound
  of its own, so it is a partial function: \<open>None\<close> is a scan that never returns.
  On \<open>break\<close> it hands over the stream and the buffer holding the \<open>moov\<close> header.
\<close>

partial_function (option) findMoov ::
  "stream \<Rightarrow> byte list \<Rightarrow> (error + stream \<times> byte list) option" where
  "findMoov s buf =
     (case Read s buf of
        Inl err \<Rightarrow> Some (Inl err)
      | Inr (s1, buf1) \<Rightarrow>
          if take 4 (drop 4 buf1) = ''moov'' then Some (Inr (s1, buf1))
          else (case SeekCurrent s1 (uint (BigEndian_Uint32 buf1) - 8) of
                  Inl err \<Rightarrow> Some (Inl err)
                | Inr s2 \<Rightarrow> findMoov s2 buf1))"

declare findMoov.simps [code]

definition getVideoCreationTimeMetadata :: "stream \<Rightarrow> (error + time) option" where
  "getVideoCreationTimeMetadata videoBuffer =
     (case findMoov videoBuffer (replicate 8 (CHR 0x00)) of
        None \<Rightarrow> None
      | Some (Inl err) \<Rightarrow> Some (Inl err)
      | Some (Inr (s1, buf1)) \<Rightarrow>
          (case Read s1 buf1 of
             Inl err \<Rightarrow> Some (Inl err)
           | Inr (s2, buf2) \<Rightarrow>
               (let atomType = take 4 (drop 4 buf2)
                in if atomType = ''mvhd'' then
                     (case Read s2 buf2 of
                        Inl err \<Rightarrow> Some (Inl err)
                      | Inr (s3, buf3) \<Rightarrow>
                          (let appleEpoch = uint (BigEndian_Uint32 (drop 4 buf3))
                           in Some (Inr (Time (appleEpoch - appleEpochAdjustment) Local))))
                   else if atomType = ''cmov'' then Some (Inl CompressedVideo)
                   else if atomType = ''rmra'' then Some (Inl ReferenceVideo)
                   else Some (Inl MovieHeaderNotFound))))"

text \<open>
  Streams for the statements about the walker.  An atom is its 8-byte header and its
  payload; it is \<open>skippable\<close> when the header's tag is not \<open>moov\<close> and its size
  field counts exactly the header and the payload, so that the seek by
  \<open>size - 8\<close> lands on the next header.
\<close>

type_synonym atom = "byte list \<times> byte list"

definition atomBytes :: "atom \<Rightarrow> byte list" where
  "atomBytes a = fst a @ snd a"

definition skippable :: "atom \<Rightarrow> bool" where
  "skippable a =
     (length (fst a) = 8 \<and> take 4 (drop 4 (fst a)) \<noteq> ''moov'' \<and>
      uint (BigEndian_Uint32 (fst a)) = 8 + int (length (snd a)))"

definition atomStream :: "atom list \<Rightarrow> byte list \<Rightarrow> stream" where
  "atomStream atoms rest = \<lparr>sdata = concat (map atomBytes atoms) @ rest, spos = 0\<rparr>"

text \<open>
  After the skippable atoms the loop stands at the byte after them, with the last
  header it read (or the fresh buffer) still in the buffer.  A stream is \<open>cutShort\<close>
  when it starts with the header of an atom that is not \<open>moov\<close> and ends before the
  size in that header is used up.
\<close>

definition scannedBuf :: "atom list \<Rightarrow> byte list" where
  "scannedBuf atoms = (if atoms = [] then replicate 8 (CHR 0x00) else fst (last atoms))"

definition cutShort :: "byte list \<Rightarrow> bool" where
  "cutShort tail =
     (8 \<le> length tail \<and> take 4 (drop 4 tail) \<noteq> ''moov'' \<and>
      int (length tail) \<le> uint (BigEndian_Uint32 tail))"

section \<open>Strings and paths\<close>

text \<open>
  \<open>strings.ToUpper\<close> and \<open>strings.ToLower\<close> on the ASCII letters (the recognised
  extensions are ASCII; other bytes are left alone).
\<close>

definition toUpperChar :: "char \<Rightarrow> char" where
  "toUpperChar c =
     (case map_of (zip ''abcdefghijklmnopqrstuvwxyz'' ''ABCDEFGHIJKLMNOPQRSTUVWXYZ'') c of
        Some u \<Rightarrow> u
      | None \<Rightarrow> c)"

definition toLowerChar :: "char \<Rightarrow> char" where
  "toLowerChar c =
     (case map_of (zip ''ABCDEFGHIJKLMNOPQRSTUVWXYZ'' ''abcdefghijklmnopqrstuvwxyz'') c of
        Some l \<Rightarrow> l
      | None \<Rightarrow> c)"

definition strings_ToUpper :: "string \<Rightarrow> string" where
  "strings_ToUpper s = map toUpperChar s"

definition strings_ToLower :: "string \<Rightarrow> string" where
  "strings_ToLower s = map toLowerChar s"

text \<open>\<open>strings.Split(s, sep)\<close> for a one-byte separator: never an empty list.\<close>

fun splitOn :: "char \<Rightarrow> string \<Rightarrow> string list" where
  "splitOn sep [] = [[]]"
| "splitOn sep (c # cs) =
     (if c = sep then [] # splitOn sep cs
      else (case splitOn sep cs of
              [] \<Rightarrow> [[c]]
            | p # ps \<Rightarrow> (c # p) # ps))"

definition strings_TrimSuffix :: "string \<Rightarrow> string \<Rightarrow> string" where
  "strings_TrimSuffix s suf = (if suffix suf s then take (length s - length suf) s else s)"

definition strings_TrimPrefix :: "string \<Rightarrow> string \<Rightarrow> string" where
  "strings_TrimPrefix s pre = (if prefix pre s then drop (length pre) s else s)"

text \<open>\<open>strconv.Itoa\<close> on the non-negative loop counter of \<open>renameWithCollision\<close>.\<close>

definition digitChar :: "nat \<Rightarrow> char" where
  "digitChar d = ''0123456789'' ! d"

function strconv_Itoa :: "nat \<Rightarrow> string" where
  "strconv_Itoa n = (if n < 10 then [digitChar n] else strconv_Itoa (n div 10) @ [digitChar (n mod 10)])"
  by pat_completeness auto
termination
  by (relation "measure id") auto

declare strconv_Itoa.simps [simp del]

text \<open>
  A path is the list of its components under the root \<open>/\<close>: absolute and clean, as
  \<open>filepath.Abs\<close>, \<open>filepath.Walk\<close> and \<open>filepath.Join\<close> produce them.
  \<open>cleanPath\<close> is \<open>filepath.Clean\<close> on the components appended to a clean directory:
  empty components and \<open>.\<close> vanish, \<open>..\<close> removes the component before it (and
  stays at the root).
\<close>

type_synonym path = "string list"

fun cleanPath :: "string list \<Rightarrow> path \<Rightarrow> path" where
  "cleanPath [] acc = acc"
| "cleanPath (c # cs) acc =
     (if c = [] \<or> c = ''.'' then cleanPath cs acc
      else if c = ''..'' then cleanPath cs (butlast acc)
      else cleanPath cs (acc @ [c]))"

definition filepath_Join :: "path \<Rightarrow> string \<Rightarrow> path" where
  "filepath_Join dir elem = cleanPath (splitOn CHR ''/'' elem) dir"

definition filepath_Abs :: "path \<Rightarrow> string \<Rightarrow> path" where
  "filepath_Abs cwd p =
     (if p \<noteq> [] \<and> hd p = CHR ''/'' then cleanPath (splitOn CHR ''/'' p) []
      else cleanPath (splitOn CHR ''/'' p) cwd)"

definition filepath_Dir :: "path \<Rightarrow> path" where
  "filepath_Dir p = butlast p"

definition filepath_Base :: "path \<Rightarrow> string" where
  "filepath_Base p = (if p = [] then ''/'' else last p)"

text \<open>\<open>filepath.Ext\<close> of a file name: from its last dot on, or empty without a dot.\<close>

definition filepath_Ext :: "string \<Rightarrow> string" where
  "filepath_Ext name =
     (if CHR ''.'' \<in> set name then CHR ''.'' # last (splitOn CHR ''.'' name) else [])"

text \<open>\<open>filepath.Rel\<close> of two clean absolute paths, as components.\<close>

definition filepath_Rel :: "path \<Rightarrow> path \<Rightarrow> string list" where
  "filepath_Rel base targ =
     (let common = longest_common_prefix base targ
      in replicate (length base - length common) ''..'' @ drop (length common) targ)"

fun inArray :: "string \<Rightarrow> string list \<Rightarrow> bool" where
  "inArray v [] = False"
| "inArray v (x # array) = (if x = v then True else inArray v array)"

section \<open>The file system\<close>

text \<open>
  The file system is a finite table from paths to entries: a regular file with its
  bytes and permission bits, or a directory.  The operations below are the calls of
  package \<open>os\<close> and \<open>path/filepath\<close> the program makes, with the failures a table of
  files and directories can produce.
\<close>

datatype entry = File (content: "byte list") (perm: nat) | Dir

type_synonym filesys = "(path \<times> entry) list"

text \<open>
  \<open>extensions.DoesFileExist\<close> (package GoCore): whether \<open>os.Stat\<close> finds the path.
\<close>

definition DoesFileExist :: "filesys \<Rightarrow> path \<Rightarrow> bool" where
  "DoesFileExist fs p = (map_of fs p \<noteq> None)"

definition setEntry :: "filesys \<Rightarrow> path \<Rightarrow> entry \<Rightarrow> filesys" where
  "setEntry fs p e =
     (if map_of fs p = None then fs @ [(p, e)]
      else map (\<lambda>(q, old). if q = p then (q, e) else (q, old)) fs)"

text \<open>
  \<open>filepath.Walk\<close> visits the root and everything below it, each directory before its
  contents and the names of one directory in byte order: the order of the component
  lists.  The walk function of every caller returns the error it is handed, so a root
  that cannot be read ends the walk with that error.  The entries are listed as the
  walk starts; every caller's function writes outside the tree it walks.
\<close>

definition filepath_Walk :: "filesys \<Rightarrow> path \<Rightarrow> error + (path \<times> entry) list" where
  "filepath_Walk fs root =
     (if map_of fs root = None then Inl ENOENT
      else Inr (sort_key fst (filter (\<lambda>(p, info). prefix root p) fs)))"

fun mkdirStep :: "error + filesys \<Rightarrow> path \<Rightarrow> error + filesys" where
  "mkdirStep (Inl err) q = Inl err"
| "mkdirStep (Inr fs) q =
     (case map_of fs q of
        None \<Rightarrow> Inr (fs @ [(q, Dir)])
      | Some Dir \<Rightarrow> Inr fs
      | Some (File c m) \<Rightarrow> Inl ENOTDIR)"

definition os_MkdirAll :: "filesys \<Rightarrow> path \<Rightarrow> error + filesys" where
  "os_MkdirAll fs p = foldl mkdirStep (Inr fs) (prefixes p)"

definition os_ReadFile :: "filesys \<Rightarrow> path \<Rightarrow> error + byte list" where
  "os_ReadFile fs p =
     (case map_of fs p of
        None \<Rightarrow> Inl ENOENT
      | Some Dir \<Rightarrow> Inl EISDIR
      | Some (File c m) \<Rightarrow> Inr c)"

definition os_WriteFile :: "filesys \<Rightarrow> path \<Rightarrow> byte list \<Rightarrow> nat \<Rightarrow> error + filesys" where
  "os_WriteFile fs p input mode =
     (case map_of fs p of
        Some Dir \<Rightarrow> Inl EISDIR
      | Some (File c m) \<Rightarrow> Inr (setEntry fs p (File input m))
      | None \<Rightarrow>
          (case map_of fs (butlast p) of
             Some Dir \<Rightarrow> Inr (setEntry fs p (File input mode))
           | Some (File c m) \<Rightarrow> Inl ENOTDIR
           | None \<Rightarrow> Inl ENOENT))"

text \<open>
  \<open>os.Open\<close> of a regular file gives a stream at offset 0.  (A directory opens too
  in Go and fails at its first read; here it fails when opened.  The program only
  opens what the walk listed as a file.)
\<close>

definition os_Open :: "filesys \<Rightarrow> path \<Rightarrow> error + stream" where
  "os_Open fs p =
     (case map_of fs p of
        None \<Rightarrow> Inl ENOENT
      | Some Dir \<Rightarrow> Inl EISDIR
      | Some (File c m) \<Rightarrow> Inr \<lparr>sdata = c, spos = 0\<rparr>)"

text \<open>
  \<open>os.Rename\<close>: the source must exist and the directory of the target must be a
  directory; a file replaces a file, nothing replaces a directory that has entries,
  and a directory moves with everything below it.
\<close>

definition movePath :: "filesys \<Rightarrow> path \<Rightarrow> path \<Rightarrow> filesys" where
  "movePath fs src dst =
     map (\<lambda>(p, e). if prefix src p then (dst @ drop (length src) p, e) else (p, e))
       (filter (\<lambda>(p, e). p \<noteq> dst) fs)"

definition os_Rename :: "filesys \<Rightarrow> path \<Rightarrow> path \<Rightarrow> error + filesys" where
  "os_Rename fs src dst =
     (case map_of fs src of
        None \<Rightarrow> Inl ENOENT
      | Some e \<Rightarrow>
          if src = dst then Inr fs
          else if map_of fs (butlast dst) \<noteq> Some Dir then Inl ENOENT
          else if prefix src dst then Inl EINVAL
          else (case map_of fs dst of
                  None \<Rightarrow> Inr (movePath fs src dst)
                | Some Dir \<Rightarrow>
                    if e \<noteq> Dir then Inl EISDIR
                    else if \<exists>(p, x) \<in> set fs. strict_prefix dst p then Inl ENOTEMPTY
                    else Inr (movePath fs src dst)
                | Some (File c m) \<Rightarrow>
                    if e = Dir then Inl ENOTDIR else Inr (movePath fs src dst)))"

definition os_RemoveAll :: "filesys \<Rightarrow> path \<Rightarrow> filesys" where
  "os_RemoveAll fs p = filter (\<lambda>(q, e). \<not> prefix p q) fs"

section \<open>The libraries the program calls\<close>

text \<open>
  Three library calls decide what the program does with a file: \<open>time.Parse\<close>,
  \<open>Time.Format\<close> and the EXIF decoder.  The program is modelled over any behaviour of
  the three (a \<open>golib\<close>): \<open>time_Parse lib layout v\<close>, \<open>time_Format lib t layout\<close>,
  and \<open>exif_Fields lib input\<close> for the chain \<open>exif.Decode\<close>, \<open>MarshalJSON\<close>,
  \<open>json.Unmarshal\<close> that turns the bytes of a picture into a map from tag names to
  JSON values.
\<close>

datatype json = JString string | JNumber int | JArray "json list"

record golib =
  time_Parse :: "string \<Rightarrow> string \<Rightarrow> error + time"
  time_Format :: "time \<Rightarrow> string \<Rightarrow> string"
  exif_Fields :: "byte list \<Rightarrow> error + (string \<rightharpoonup> json)"

text \<open>
  For runs on concrete files, package \<open>time\<close> on the two layouts the program uses
  without a format argument, \<open>2006-01-02 15.04.05\<close> and \<open>2006:01:02 15:04:05\<close>:
  a four-digit year, a two-digit month and day, an hour of one or two digits, two-digit
  minutes and seconds, an optional fraction of a second after the seconds (read and
  dropped), nothing after it, and a day that exists in its month.
\<close>

definition isDigit :: "char \<Rightarrow> bool" where
  "isDigit c = (CHR ''0'' \<le> c \<and> c \<le> CHR ''9'')"

definition digitVal :: "char \<Rightarrow> int" where
  "digitVal c = int (of_char c) - 48"

fun getnum :: "string \<Rightarrow> bool \<Rightarrow> (int \<times> string) option" where
  "getnum [] fixed = None"
| "getnum [c] fixed = (if isDigit c \<and> \<not> fixed then Some (digitVal c, []) else None)"
| "getnum (c # d # s) fixed =
     (if \<not> isDigit c then None
      else if \<not> isDigit d then (if fixed then None else Some (digitVal c, d # s))
      else Some (digitVal c * 10 + digitVal d, s))"

definition skipChar :: "char \<Rightarrow> string \<Rightarrow> string option" where
  "skipChar c s = (case s of [] \<Rightarrow> None | x # xs \<Rightarrow> if x = c then Some xs else None)"

definition skipSpace :: "string \<Rightarrow> string option" where
  "skipSpace s =
     (case s of
        [] \<Rightarrow> Some []
      | x # xs \<Rightarrow> if x = CHR '' '' then Some (dropWhile (\<lambda>c. c = CHR '' '') s) else None)"

definition skipFraction :: "string \<Rightarrow> string" where
  "skipFraction s =
     (case s of
        c # d # rest \<Rightarrow>
          if (c = CHR ''.'' \<or> c = CHR '','') \<and> isDigit d then dropWhile isDigit (d # rest)
          else s
      | _ \<Rightarrow> s)"

definition isLeap :: "int \<Rightarrow> bool" where
  "isLeap y = (y mod 4 = 0 \<and> (y mod 100 \<noteq> 0 \<or> y mod 400 = 0))"

definition daysIn :: "int \<Rightarrow> int \<Rightarrow> int" where
  "daysIn m y =
     (if m = 2 then (if isLeap y then 29 else 28)
      else if m = 4 \<or> m = 6 \<or> m = 9 \<or> m = 11 then 30 else 31)"

definition daysFromCivil :: "int \<Rightarrow> int \<Rightarrow> int \<Rightarrow> int" where
  "daysFromCivil y m d =
     (let y1 = (if m \<le> 2 then y - 1 else y);
          era = y1 div 400;
          yoe = y1 - era * 400;
          doy = (153 * (if m > 2 then m - 3 else m + 9) + 2) div 5 + d - 1;
          doe = yoe * 365 + yoe div 4 - yoe div 100 + doy
      in era * 146097 + doe - 719468)"

definition civilFromDays :: "int \<Rightarrow> int \<times> int \<times> int" where
  "civilFromDays z =
     (let z1 = z + 719468;
          era = z1 div 146097;
          doe = z1 - era * 146097;
          yoe = (doe - doe div 1460 + doe div 36524 - doe div 146096) div 365;
          doy = doe - (365 * yoe + yoe div 4 - yoe div 100);
          mp = (5 * doy + 2) div 153;
          d = doy - (153 * mp + 2) div 5 + 1;
          m = (if mp < 10 then mp + 3 else mp - 9);
          y = yoe + era * 400
      in (if m \<le> 2 then y + 1 else y, m, d))"

definition parseClock :: "char \<Rightarrow> string \<Rightarrow> (int \<times> string) option" where
  "parseClock tsep s =
     (case Option.bind (skipSpace s) (\<lambda>r. getnum r False) of
        None \<Rightarrow> None
      | Some (hour, s1) \<Rightarrow>
          if 24 \<le> hour then None
          else
            (case Option.bind (skipChar tsep s1) (\<lambda>r. getnum r True) of
               None \<Rightarrow> None
             | Some (minute, s2) \<Rightarrow>
                 if 60 \<le> minute then None
                 else
                   (case Option.bind (skipChar tsep s2) (\<lambda>r. getnum r True) of
                      None \<Rightarrow> None
                    | Some (sec, s3) \<Rightarrow>
                        if 60 \<le> sec then None
                        else Some (hour * 3600 + minute * 60 + sec, skipFraction s3))))"

definition parseStamp :: "char \<Rightarrow> char \<Rightarrow> string \<Rightarrow> error + time" where
  "parseStamp dsep tsep v =
     (if length v < 4 \<or> \<not> list_all isDigit (take 4 v) then Inl ParseError
      else
        (let year = foldl (\<lambda>a c. a * 10 + digitVal c) 0 (take 4 v)
         in case Option.bind (skipChar dsep (drop 4 v)) (\<lambda>r. getnum r True) of
              None \<Rightarrow> Inl ParseError
            | Some (month, s1) \<Rightarrow>
                if month \<le> 0 \<or> 12 < month then Inl ParseError
                else
                  (case Option.bind (skipChar dsep s1) (\<lambda>r. getnum r True) of
                     None \<Rightarrow> Inl ParseError
                   | Some (day, s2) \<Rightarrow>
                       (case parseClock tsep s2 of
                          None \<Rightarrow> Inl ParseError
                        | Some (clock, s3) \<Rightarrow>
                            if s3 \<noteq> [] then Inl ParseError
                            else if day < 1 \<or> daysIn month year < day then Inl ParseError
                            else Inr (Time (daysFromCivil year month day * 86400 + clock) UTC)))))"

definition pad :: "nat \<Rightarrow> int \<Rightarrow> string" where
  "pad width x =
     (let ds = strconv_Itoa (nat \<bar>x\<bar>)
      in (if x < 0 then [CHR ''-''] else []) @ replicate (width - length ds) (CHR ''0'') @ ds)"

text \<open>
  \<open>localOffset\<close> is the offset of the process's time zone east of UTC in seconds; the
  concrete runs below use the zone UTC itself.
\<close>

definition formatStamp :: "int \<Rightarrow> char \<Rightarrow> char \<Rightarrow> time \<Rightarrow> string" where
  "formatStamp localOffset dsep tsep t =
     (let s = unixSec t + (if loc t = Local then localOffset else 0);
          (y, m, d) = civilFromDays (s div 86400);
          r = s mod 86400
      in pad 4 y @ [dsep] @ pad 2 m @ [dsep] @ pad 2 d @ [CHR '' ''] @
         pad 2 (r div 3600) @ [tsep] @ pad 2 (r mod 3600 div 60) @ [tsep] @ pad 2 (r mod 60))"

definition stdParse :: "string \<Rightarrow> string \<Rightarrow> error + time" where
  "stdParse layout v =
     (if layout = ''2006-01-02 15.04.05'' then parseStamp (CHR ''-'') (CHR ''.'') v
      else if layout = ''2006:01:02 15:04:05'' then parseStamp (CHR '':'') (CHR '':'') v
      else Inl UnknownLayout)"

definition stdFormat :: "time \<Rightarrow> string \<Rightarrow> string" where
  "stdFormat t layout =
     (if layout = ''2006-01-02 15.04.05'' then formatStamp 0 (CHR ''-'') (CHR ''.'') t
      else if layout = ''2006:01:02 15:04:05'' then formatStamp 0 (CHR '':'') (CHR '':'') t
      else layout)"

text \<open>
  A stand-in for the EXIF decoder on concrete files: a picture whose bytes are the text
  \<open>s\<close> decodes to the single tag \<open>DateTimeOriginal = s\<close>, and an empty file has no
  EXIF data.
\<close>

definition plainExif :: "byte list \<Rightarrow> error + (string \<rightharpoonup> json)" where
  "plainExif input =
     (if input = [] then Inl ExifDecodeError
      else Inr [''DateTimeOriginal'' \<mapsto> JString input])"

definition stdlib :: golib where
  "stdlib = \<lparr>time_Parse = stdParse, time_Format = stdFormat, exif_Fields = plainExif\<rparr>"

section \<open>The program\<close>

text \<open>
  What a run can be observed to do: the file system it leaves, the lines it prints (to
  the log and to the error stream, as events) and the renames it has issued, each a
  call of \<open>os.Rename\<close> with its source and target.
\<close>

datatype event =
    SkippingNoExtension path
  | CouldNotOpen path error
  | CouldNotReadTimestamp path error
  | CouldNotResolveCollision path error
  | CouldNotRename path path error
  | Renamed string string
  | CouldNotReadFile path error
  | CouldNotDecodeExif path error
  | NoSuitableDateField path
  | FailedToParseDate path error
  | AlreadyInFormat string
  | BackupCreated path
  | ErrorCounting error
  | BackupRemoved path nat
  | BackupRetained path nat nat
  | Completed

record world =
  wfs :: filesys
  wlog :: "event list"
  wrenames :: "(path \<times> path) list"

definition emit :: "world \<Rightarrow> event \<Rightarrow> world" where
  "emit w ev = w\<lparr>wlog := wlog w @ [ev]\<rparr>"

subsection \<open>backupDirectory (lines 401-439)\<close>

text \<open>
  The walk function of \<open>backupDirectory\<close>, over the entries the walk lists: it stops
  at the first failure, and the file system keeps what was copied before it.  The path
  handed in by \<open>main\<close> is absolute already, so the \<open>filepath.Abs\<close> of line 403 leaves
  it as it is.
\<close>

fun backupEntries ::
  "path \<Rightarrow> path \<Rightarrow> (path \<times> entry) list \<Rightarrow> filesys \<Rightarrow> filesys \<times> error option" where
  "backupEntries originalAbsPath backupPath [] fs = (fs, None)"
| "backupEntries originalAbsPath backupPath ((srcPath, info) # rest) fs =
     (let rel = filepath_Rel originalAbsPath srcPath;
          destPath = cleanPath rel backupPath
      in case info of
           Dir \<Rightarrow>
             (case os_MkdirAll fs destPath of
                Inl err \<Rightarrow> (fs, Some err)
              | Inr fs1 \<Rightarrow> backupEntries originalAbsPath backupPath rest fs1)
         | File c mode \<Rightarrow>
             (case os_ReadFile fs srcPath of
                Inl errRead \<Rightarrow> (fs, Some errRead)
              | Inr input \<Rightarrow>
                  (case os_WriteFile fs destPath input mode of
                     Inl err \<Rightarrow> (fs, Some err)
                   | Inr fs1 \<Rightarrow> backupEntries originalAbsPath backupPath rest fs1)))"

definition backupDirectory :: "filesys \<Rightarrow> path \<Rightarrow> filesys \<times> (error + path)" where
  "backupDirectory fs originalAbsPath =
     (let parentDir = filepath_Dir originalAbsPath;
          baseName = filepath_Base originalAbsPath;
          backupPath = filepath_Join parentDir (baseName @ backupSuffix)
      in case filepath_Walk fs originalAbsPath of
           Inl walkErr \<Rightarrow> (fs, Inl walkErr)
         | Inr entries \<Rightarrow>
             (case backupEntries originalAbsPath backupPath entries fs of
                (fs1, Some err) \<Rightarrow> (fs1, Inl err)
              | (fs1, None) \<Rightarrow> (fs1, Inr backupPath)))"

subsection \<open>countFilteredFiles, recurseFiles, countFilesInDirs\<close>

definition isFiltered :: "config \<Rightarrow> path \<times> entry \<Rightarrow> bool" where
  "isFiltered cfg pe =
     (case pe of
        (p, info) \<Rightarrow>
          info \<noteq> Dir \<and>
          (let ext = strings_ToUpper (strings_TrimPrefix (filepath_Ext (filepath_Base p)) ''.'')
           in inArray ext (pictureExtensions cfg) \<or> inArray ext (movieExtensions cfg)))"

definition countFilteredFiles :: "config \<Rightarrow> filesys \<Rightarrow> path \<Rightarrow> error + nat" where
  "countFilteredFiles cfg fs directory =
     (case filepath_Walk fs directory of
        Inl err \<Rightarrow> Inl err
      | Inr entries \<Rightarrow>
          Inr (foldl (\<lambda>count pe. if isFiltered cfg pe then count + 1 else count) 0 entries))"

definition recurseFiles :: "filesys \<Rightarrow> path \<Rightarrow> error + path list" where
  "recurseFiles fs fileDir =
     (case filepath_Walk fs fileDir of
        Inl errWalk \<Rightarrow> Inl errWalk
      | Inr entries \<Rightarrow> Inr (map fst (filter (\<lambda>(p, f). f \<noteq> Dir) entries)))"

definition countFilesInDirs :: "config \<Rightarrow> filesys \<Rightarrow> path \<Rightarrow> path \<Rightarrow> error + nat \<times> nat" where
  "countFilesInDirs cfg fs originalDir backupDir =
     (case countFilteredFiles cfg fs originalDir of
        Inl err1 \<Rightarrow> Inl err1
      | Inr originalCount \<Rightarrow>
          (case countFilteredFiles cfg fs backupDir of
             Inl err2 \<Rightarrow> Inl err2
           | Inr backupCount \<Rightarrow> Inr (originalCount, backupCount)))"

subsection \<open>renameWithCollision (lines 529-542)\<close>

definition candidate :: "path \<Rightarrow> string \<Rightarrow> string \<Rightarrow> nat \<Rightarrow> path" where
  "candidate dir targetBase ext i =
     filepath_Join dir (targetBase @ ''-'' @ strconv_Itoa i @ ext)"

function probe :: "config \<Rightarrow> filesys \<Rightarrow> path \<Rightarrow> string \<Rightarrow> string \<Rightarrow> nat \<Rightarrow> error + path" where
  "probe cfg fs dir targetBase ext i =
     (if i < colisionMax cfg then
        (if \<not> DoesFileExist fs (candidate dir targetBase ext i)
         then Inr (candidate dir targetBase ext i)
         else probe cfg fs dir targetBase ext (i + 1))
      else Inl NoAvailableFilename)"
  by pat_completeness auto
termination
  by (relation "measure (\<lambda>(cfg, fs, dir, targetBase, ext, i). colisionMax cfg - i)") auto

declare probe.simps [simp del]

definition renameWithCollision ::
  "config \<Rightarrow> filesys \<Rightarrow> path \<Rightarrow> string \<Rightarrow> string \<Rightarrow> error + path" where
  "renameWithCollision cfg fs src targetBase ext =
     (let dir = filepath_Dir src
      in if \<not> DoesFileExist fs (filepath_Join dir (targetBase @ ext))
         then Inr (filepath_Join dir (targetBase @ ext))
         else probe cfg fs dir targetBase ext 1)"

subsection \<open>processFile (lines 548-638)\<close>

text \<open>
  Lines 573-582 and 627-636 are the same block: resolve the name, rename, log.
  \<open>renameTo\<close> is that block.
\<close>

definition renameTo :: "config \<Rightarrow> world \<Rightarrow> path \<Rightarrow> string \<Rightarrow> string \<Rightarrow> string \<Rightarrow> world" where
  "renameTo cfg w fileWork baseName potentialName extLowerDot =
     (case renameWithCollision cfg (wfs w) fileWork potentialName extLowerDot of
        Inl err \<Rightarrow> emit w (CouldNotResolveCollision fileWork err)
      | Inr target \<Rightarrow>
          (let w1 = w\<lparr>wrenames := wrenames w @ [(fileWork, target)]\<rparr>
           in case os_Rename (wfs w) fileWork target of
                Inl err \<Rightarrow> emit w1 (CouldNotRename fileWork target err)
              | Inr fs1 \<Rightarrow> emit (w1\<lparr>wfs := fs1\<rparr>) (Renamed baseName (filepath_Base target))))"

text \<open>
  Lines 610-619: which tag is read.  \<open>val.(string)\<close> panics on a value that is not a
  string, and nothing in this revision recovers from it.
\<close>

datatype exifDate = NoDateField | NotAString | Parsed "error + time"

definition parseExifValue :: "golib \<Rightarrow> json \<Rightarrow> exifDate" where
  "parseExifValue lib val =
     (case val of
        JString s \<Rightarrow> Parsed (time_Parse lib ''2006:01:02 15:04:05'' s)
      | JNumber n \<Rightarrow> NotAString
      | JArray vs \<Rightarrow> NotAString)"

definition exifDateOf :: "golib \<Rightarrow> (string \<rightharpoonup> json) \<Rightarrow> exifDate" where
  "exifDateOf lib exifFields =
     (case exifFields ''DateTimeOriginal'' of
        Some val \<Rightarrow> parseExifValue lib val
      | None \<Rightarrow>
          (case exifFields ''DateTime'' of
             Some val \<Rightarrow> parseExifValue lib val
           | None \<Rightarrow> NoDateField))"

datatype status = Returned | Panicked

definition processFile ::
  "golib \<Rightarrow> config \<Rightarrow> path \<Rightarrow> string list \<Rightarrow> world \<Rightarrow> (status \<times> world) option" where
  "processFile lib cfg fileWork movieExts w =
     (let baseName = filepath_Base fileWork;
          pieces = splitOn (CHR ''.'') baseName
      in if length pieces < 2 then Some (Returned, emit w (SkippingNoExtension fileWork))
         else
           (let extUpper = strings_ToUpper (last pieces);
                extLowerDot = ''.'' @ strings_ToLower (last pieces)
            in if inArray extUpper movieExts then
                 (case os_Open (wfs w) fileWork of
                    Inl err \<Rightarrow> Some (Returned, emit w (CouldNotOpen fileWork err))
                  | Inr fd \<Rightarrow>
                      (case getVideoCreationTimeMetadata fd of
                         None \<Rightarrow> None
                       | Some (Inl err) \<Rightarrow>
                           Some (Returned, emit w (CouldNotReadTimestamp fileWork err))
                       | Some (Inr timeInfo) \<Rightarrow>
                           (let potentialName = time_Format lib timeInfo (fmtDesired cfg)
                            in if strings_TrimSuffix baseName extLowerDot \<noteq> potentialName
                               then Some (Returned,
                                      renameTo cfg w fileWork baseName potentialName extLowerDot)
                               else Some (Returned, w))))
               else
                 (case os_ReadFile (wfs w) fileWork of
                    Inl err \<Rightarrow> Some (Returned, emit w (CouldNotReadFile fileWork err))
                  | Inr input \<Rightarrow>
                      (case exif_Fields lib input of
                         Inl err \<Rightarrow> Some (Returned, emit w (CouldNotDecodeExif fileWork err))
                       | Inr exifFields \<Rightarrow>
                           (case exifDateOf lib exifFields of
                              NoDateField \<Rightarrow> Some (Returned, emit w (NoSuitableDateField fileWork))
                            | NotAString \<Rightarrow> Some (Panicked, w)
                            | Parsed (Inl parseErr) \<Rightarrow>
                                Some (Returned, emit w (FailedToParseDate fileWork parseErr))
                            | Parsed (Inr timeInfo) \<Rightarrow>
                                (let potentialName = time_Format lib timeInfo (fmtDesired cfg)
                                 in if baseName \<noteq> potentialName @ extLowerDot
                                    then Some (Returned,
                                           renameTo cfg w fileWork baseName potentialName extLowerDot)
                                    else Some (Returned, w)))))))"

subsection \<open>main (lines 670-733)\<close>

text \<open>The loop of step 3 (lines 704-718), with the guard that skips a file already named.\<close>

fun mainLoop :: "golib \<Rightarrow> config \<Rightarrow> path list \<Rightarrow> world \<Rightarrow> (status \<times> world) option" where
  "mainLoop lib cfg [] w = Some (Returned, w)"
| "mainLoop lib cfg (fileToWorkOn # rest) w =
     (let ext = strings_TrimPrefix (strings_ToUpper (filepath_Ext (filepath_Base fileToWorkOn))) ''.''
      in if inArray ext (pictureExtensions cfg) \<or> inArray ext (movieExtensions cfg) then
           (let baseName = filepath_Base fileToWorkOn;
                nameNoExt = strings_TrimSuffix baseName (''.'' @ strings_ToLower ext)
            in case time_Parse lib (fmtDesired cfg) nameNoExt of
                 Inr t \<Rightarrow> mainLoop lib cfg rest (emit w (AlreadyInFormat baseName))
               | Inl parseErr \<Rightarrow>
                   (case processFile lib cfg fileToWorkOn (movieExtensions cfg) w of
                      None \<Rightarrow> None
                    | Some (Panicked, w1) \<Rightarrow> Some (Panicked, w1)
                    | Some (Returned, w1) \<Rightarrow> mainLoop lib cfg rest w1))
         else mainLoop lib cfg rest w)"

text \<open>Step 4 (lines 720-730): compare the counts and remove the backup if they match.\<close>

definition verifyBackup :: "config \<Rightarrow> world \<Rightarrow> path \<Rightarrow> path \<Rightarrow> world" where
  "verifyBackup cfg w originalAbsPath backupDirPath =
     (case countFilesInDirs cfg (wfs w) originalAbsPath backupDirPath of
        Inl err \<Rightarrow> emit w (ErrorCounting err)
      | Inr (originalCount, backupCount) \<Rightarrow>
          if originalCount = backupCount
          then emit (w\<lparr>wfs := os_RemoveAll (wfs w) backupDirPath\<rparr>)
                 (BackupRemoved backupDirPath originalCount)
          else emit w (BackupRetained backupDirPath originalCount backupCount))"

datatype fatal = Usage | PathDoesNotExist path | BackupFailed error | ErrorRecursing error

datatype exit = ExitOK | ExitFatal fatal | ExitPanic

definition main ::
  "golib \<Rightarrow> config \<Rightarrow> path \<Rightarrow> string list \<Rightarrow> world \<Rightarrow> (exit \<times> world) option" where
  "main lib cfg0 cwd args w =
     (if length args < 2 then Some (ExitFatal Usage, w)
      else
        (let potentialPath = args ! 1;
             cfg = (if length args = 3 then cfg0\<lparr>fmtDesired := args ! 2\<rparr> else cfg0);
             originalAbsPath = filepath_Abs cwd potentialPath
         in if \<not> DoesFileExist (wfs w) originalAbsPath
            then Some (ExitFatal (PathDoesNotExist originalAbsPath), w)
            else
              (case backupDirectory (wfs w) originalAbsPath of
                 (fs1, Inl err) \<Rightarrow> Some (ExitFatal (BackupFailed err), w\<lparr>wfs := fs1\<rparr>)
               | (fs1, Inr backupDirPath) \<Rightarrow>
                   (let w1 = emit (w\<lparr>wfs := fs1\<rparr>) (BackupCreated backupDirPath)
                    in case recurseFiles (wfs w1) originalAbsPath of
                         Inl err \<Rightarrow> Some (ExitFatal (ErrorRecursing err), w1)
                       | Inr files \<Rightarrow>
                           (case mainLoop lib cfg files w1 of
                              None \<Rightarrow> None
                            | Some (Panicked, w2) \<Rightarrow> Some (ExitPanic, w2)
                            | Some (Returned, w2) \<Rightarrow>
                                Some (ExitOK,
                                  emit (verifyBackup cfg w2 originalAbsPath backupDirPath)
                                    Completed))))))"
section \<open>Example inputs\<close>

text \<open>
  A directory \<open>/photos\<close> of pictures that all carry the EXIF time
  \<open>2020:01:01 00:00:00\<close> (for \<open>plainExif\<close> the bytes of the file are that text).
\<close>

definition photo :: entry where
  "photo = File ''2020:01:01 00:00:00'' 420"

definition photoDir :: "string list \<Rightarrow> filesys" where
  "photoDir names = ([], Dir) # ([''photos''], Dir) # map (\<lambda>n. ([''photos'', n], photo)) names"

definition worldOf :: "filesys \<Rightarrow> world" where
  "worldOf fs = \<lparr>wfs = fs, wlog = [], wrenames = []\<rparr>"

text \<open>
  Decoders that give every picture the same tags: both date tags, only \<open>DateTime\<close>, or
  none.
\<close>

definition twoTags :: "string \<Rightarrow> string \<Rightarrow> golib" where
  "twoTags a b =
     stdlib\<lparr>exif_Fields := \<lambda>input. Inr [''DateTimeOriginal'' \<mapsto> JString a, ''DateTime'' \<mapsto> JString b]\<rparr>"

definition oneTag :: "string \<Rightarrow> golib" where
  "oneTag b = stdlib\<lparr>exif_Fields := \<lambda>input. Inr [''DateTime'' \<mapsto> JString b]\<rparr>"

definition noTags :: golib where
  "noTags = stdlib\<lparr>exif_Fields := \<lambda>input. Inr Map.empty\<rparr>"

text \<open>The picture \<open>/photos/IMG.JPG\<close> alone in its directory, before and after its rename.\<close>

definition imgWorld :: world where
  "imgWorld = worldOf (photoDir [''IMG.JPG''])"

definition imgRenamed :: world where
  "imgRenamed =
     \<lparr>wfs = photoDir [''2020-01-01 00.00.00.jpg''],
      wlog = [Renamed ''IMG.JPG'' ''2020-01-01 00.00.00.jpg''],
      wrenames = [([''photos'', ''IMG.JPG''], [''photos'', ''2020-01-01 00.00.00.jpg''])]\<rparr>"

text \<open>The backup directory next to \<open>/photos\<close>, holding copies of the named pictures.\<close>

definition backupOf :: "string list \<Rightarrow> filesys" where
  "backupOf names =
     ([''photos - Backup Exif''], Dir) # map (\<lambda>n. ([''photos - Backup Exif'', n], photo)) names"

text \<open>
  The run of the program on \<open>/photos\<close> with the default format, the concrete libraries
  and the working directory \<open>/\<close>.
\<close>

definition runOn :: "world \<Rightarrow> (exit \<times> world) option" where
  "runOn w = main stdlib defaultConfig [] [''renamer'', ''/photos''] w"

text \<open>
  The first run over the pictures \<open>a.jpg\<close> and \<open>b.jpg\<close>: the world after the backup,
  after each picture, and at the end.
\<close>

definition run1_backedUp :: world where
  "run1_backedUp =
     \<lparr>wfs = photoDir [''a.jpg'', ''b.jpg''] @ backupOf [''a.jpg'', ''b.jpg''],
      wlog = [BackupCreated [''photos - Backup Exif'']], wrenames = []\<rparr>"

definition run1_afterA :: world where
  "run1_afterA =
     \<lparr>wfs = photoDir [''2020-01-01 00.00.00.jpg'', ''b.jpg''] @ backupOf [''a.jpg'', ''b.jpg''],
      wlog = [BackupCreated [''photos - Backup Exif''],
              Renamed ''a.jpg'' ''2020-01-01 00.00.00.jpg''],
      wrenames = [([''photos'', ''a.jpg''], [''photos'', ''2020-01-01 00.00.00.jpg''])]\<rparr>"

definition run1_afterB :: world where
  "run1_afterB =
     \<lparr>wfs = photoDir [''2020-01-01 00.00.00.jpg'', ''2020-01-01 00.00.00-1.jpg'']
              @ backupOf [''a.jpg'', ''b.jpg''],
      wlog = [BackupCreated [''photos - Backup Exif''],
              Renamed ''a.jpg'' ''2020-01-01 00.00.00.jpg'',
              Renamed ''b.jpg'' ''2020-01-01 00.00.00-1.jpg''],
      wrenames = [([''photos'', ''a.jpg''], [''photos'', ''2020-01-01 00.00.00.jpg'']),
                  ([''photos'', ''b.jpg''], [''photos'', ''2020-01-01 00.00.00-1.jpg''])]\<rparr>"


definition run1_done :: world where
  "run1_done =
     \<lparr>wfs = photoDir [''2020-01-01 00.00.00.jpg'', ''2020-01-01 00.00.00-1.jpg''],
      wlog = [BackupCreated [''photos - Backup Exif''],
              Renamed ''a.jpg'' ''2020-01-01 00.00.00.jpg'',
              Renamed ''b.jpg'' ''2020-01-01 00.00.00-1.jpg'',
              BackupRemoved [''photos - Backup Exif''] 2,
              Completed],
      wrenames = [([''photos'', ''a.jpg''], [''photos'', ''2020-01-01 00.00.00.jpg'']),
                  ([''photos'', ''b.jpg''], [''photos'', ''2020-01-01 00.00.00-1.jpg''])]\<rparr>"

text \<open>
  The second run starts from the directory the first run left, with an empty log: the
  world after the backup, after the picture that is renamed again, and at the end.
\<close>

definition run2_backedUp :: world where
  "run2_backedUp =
     \<lparr>wfs = photoDir [''2020-01-01 00.00.00.jpg'', ''2020-01-01 00.00.00-1.jpg'']
              @ backupOf [''2020-01-01 00.00.00-1.jpg'', ''2020-01-01 00.00.00.jpg''],
      wlog = [BackupCreated [''photos - Backup Exif'']], wrenames = []\<rparr>"

definition run2_afterFirst :: world where
  "run2_afterFirst =
     \<lparr>wfs = photoDir [''2020-01-01 00.00.00.jpg'', ''2020-01-01 00.00.00-2.jpg'']
              @ backupOf [''2020-01-01 00.00.00-1.jpg'', ''2020-01-01 00.00.00.jpg''],
      wlog = [BackupCreated [''photos - Backup Exif''],
              Renamed ''2020-01-01 00.00.00-1.jpg'' ''2020-01-01 00.00.00-2.jpg''],
      wrenames = [([''photos'', ''2020-01-01 00.00.00-1.jpg''],
                   [''photos'', ''2020-01-01 00.00.00-2.jpg''])]\<rparr>"

definition run2_done :: world where
  "run2_done =
     \<lparr>wfs = photoDir [''2020-01-01 00.00.00.jpg'', ''2020-01-01 00.00.00-2.jpg''],
      wlog = [BackupCreated [''photos - Backup Exif''],
              Renamed ''2020-01-01 00.00.00-1.jpg'' ''2020-01-01 00.00.00-2.jpg'',
              AlreadyInFormat ''2020-01-01 00.00.00.jpg'',
              BackupRemoved [''photos - Backup Exif''] 2,
              Completed],
      wrenames = [([''photos'', ''2020-01-01 00.00.00-1.jpg''],
                   [''photos'', ''2020-01-01 00.00.00-2.jpg''])]\<rparr>"

section \<open>Facts about the atom walker\<close>

lemma or_shift:
  fixes x y :: nat
  assumes "y < 2 ^ n"
  shows "push_bit n x OR y = x * 2 ^ n + y"
proof -
  have t: "take_bit n y = y" using assms by (simp add: take_bit_nat_eq_self)
  have "push_bit n x + y = push_bit n x OR y"
  proof (rule disjunctive_add)
    fix k
    show "\<not> bit (push_bit n x) k \<or> \<not> bit y k"
      using bit_take_bit_iff[of n y k] by (auto simp: t bit_push_bit_iff)
  qed
  then show ?thesis by (simp add: push_bit_eq_mult)
qed

lemma be32_nat:
  fixes a b c d :: nat
  assumes "a < 256" "b < 256" "c < 256" "d < 256"
  shows "push_bit 24 a OR push_bit 16 b OR push_bit 8 c OR d
         = a * 16777216 + b * 65536 + c * 256 + d"
proof -
  have 1: "push_bit 8 c OR d = c * 256 + d" using or_shift[of d 8 c] assms by simp
  have 2: "push_bit 16 b OR (c * 256 + d) = b * 65536 + (c * 256 + d)"
    using or_shift[of "c * 256 + d" 16 b] assms by simp
  have 3: "push_bit 24 a OR (b * 65536 + (c * 256 + d))
           = a * 16777216 + (b * 65536 + (c * 256 + d))"
    using or_shift[of "b * 65536 + (c * 256 + d)" 24 a] assms by simp
  show ?thesis by (simp add: 1 2 3)
qed

lemma be32_word:
  fixes a b c d :: nat
  assumes "a < 256" "b < 256" "c < 256" "d < 256"
  shows "uint (push_bit 24 (word_of_nat a) OR push_bit 16 (word_of_nat b)
               OR push_bit 8 (word_of_nat c) OR (word_of_nat d :: 32 word))
         = int a * 16777216 + int b * 65536 + int c * 256 + int d"
proof -
  let ?n = "a * 16777216 + b * 65536 + c * 256 + d"
  let ?w = "push_bit 24 (word_of_nat a) OR push_bit 16 (word_of_nat b)
            OR push_bit 8 (word_of_nat c) OR (word_of_nat d :: 32 word)"
  have "?w = word_of_nat (push_bit 24 a OR push_bit 16 b OR push_bit 8 c OR d)"
    by (simp add: of_nat_or_eq of_nat_push_bit)
  also have "\<dots> = word_of_nat ?n" using assms by (simp only: be32_nat)
  finally have "uint ?w = uint (word_of_nat ?n :: 32 word)" by simp
  also have "\<dots> = int ?n"
  proof -
    have "?n < 4294967296" using assms by linarith
    then have "?n < 2 ^ LENGTH(32)" by simp
    then have "take_bit LENGTH(32) ?n = ?n" by (rule take_bit_nat_eq_self)
    then show ?thesis by (simp only: unsigned_of_nat)
  qed
  finally show ?thesis by simp
qed

text \<open>The value \<open>BigEndian_Uint32\<close> reads, as a number.\<close>

lemma uint_BigEndian_Uint32:
  "uint (BigEndian_Uint32 (b0 # b1 # b2 # b3 # rest))
   = int (of_char b0) * 16777216 + int (of_char b1) * 65536 + int (of_char b2) * 256
     + int (of_char b3)"
  using be32_word[of "of_char b0" "of_char b1" "of_char b2" "of_char b3"] by simp

lemma Read_full:
  assumes "length buf = 8" "length hdr = 8" "drop p d = hdr @ rest"
  shows "Read \<lparr>sdata = d, spos = p\<rparr> buf = Inr (\<lparr>sdata = d, spos = p + 8\<rparr>, hdr)"
  using assms by (auto simp: Read_def Let_def min_def)

lemma Read_eof:
  assumes "length buf = 8" "drop p d = []"
  shows "Read \<lparr>sdata = d, spos = p\<rparr> buf = Inl EOF"
  using assms by (auto simp: Read_def Let_def)

lemma drop_more:
  assumes "drop p d = xs @ ys"
  shows "drop (p + length xs) d = ys"
proof -
  have "drop (length xs + p) d = drop (length xs) (drop p d)" by simp
  then show ?thesis using assms by (simp add: add.commute)
qed

lemma findMoov_step:
  assumes "length buf = 8" "skippable a" "drop p d = atomBytes a @ rest"
  shows "findMoov \<lparr>sdata = d, spos = p\<rparr> buf
         = findMoov \<lparr>sdata = d, spos = p + length (atomBytes a)\<rparr> (fst a)"
proof -
  obtain hdr payload where a: "a = (hdr, payload)" by (cases a)
  from assms(2) a have h: "length hdr = 8" "take 4 (drop 4 hdr) \<noteq> ''moov''"
    "uint (BigEndian_Uint32 hdr) - 8 = int (length payload)"
    by (auto simp: skippable_def)
  have "drop p d = hdr @ (payload @ rest)" using assms(3) a by (simp add: atomBytes_def)
  with assms(1) h(1)
  have r: "Read \<lparr>sdata = d, spos = p\<rparr> buf = Inr (\<lparr>sdata = d, spos = p + 8\<rparr>, hdr)"
    by (rule Read_full)
  have s: "SeekCurrent \<lparr>sdata = d, spos = p + 8\<rparr> (int (length payload))
         = Inr \<lparr>sdata = d, spos = p + length (atomBytes a)\<rparr>"
    using h(1) by (simp add: SeekCurrent_def Let_def a atomBytes_def nat_add_distrib add.assoc)
  show ?thesis
    by (subst findMoov.simps) (simp only: r h s a sum.case prod.case if_False fst_conv)
qed

lemma findMoov_skip:
  assumes "\<forall>a\<in>set atoms. skippable a" "length buf = 8"
    and "drop p d = concat (map atomBytes atoms) @ rest"
  shows "findMoov \<lparr>sdata = d, spos = p\<rparr> buf
         = findMoov \<lparr>sdata = d, spos = p + length (concat (map atomBytes atoms))\<rparr>
             (if atoms = [] then buf else fst (last atoms))"
  using assms
proof (induction atoms arbitrary: p buf)
  case Nil
  then show ?case by simp
next
  case (Cons a atoms)
  have sk: "skippable a" and rest: "\<forall>a\<in>set atoms. skippable a" using Cons.prems by auto
  have l8: "length (fst a) = 8" using sk by (simp add: skippable_def)
  have d1: "drop p d = atomBytes a @ (concat (map atomBytes atoms) @ rest)"
    using Cons.prems(3) by simp
  then have d2: "drop (p + length (atomBytes a)) d = concat (map atomBytes atoms) @ rest"
    by (rule drop_more)
  have "findMoov \<lparr>sdata = d, spos = p\<rparr> buf
      = findMoov \<lparr>sdata = d, spos = p + length (atomBytes a)\<rparr> (fst a)"
    using Cons.prems(2) sk d1 by (rule findMoov_step)
  also have "\<dots> = findMoov \<lparr>sdata = d,
                 spos = p + length (atomBytes a) + length (concat (map atomBytes atoms))\<rparr>
               (if atoms = [] then fst a else fst (last atoms))"
    using Cons.IH[OF rest l8 d2] .
  finally show ?case by (simp add: add.assoc)
qed

lemma length_scannedBuf:
  assumes "\<forall>a\<in>set atoms. skippable a"
  shows "length (scannedBuf atoms) = 8"
  using assms by (auto simp: skippable_def scannedBuf_def)

lemma findMoov_atomStream:
  assumes "\<forall>a\<in>set atoms. skippable a"
  shows "findMoov (atomStream atoms rest) (replicate 8 (CHR 0x00))
         = findMoov \<lparr>sdata = concat (map atomBytes atoms) @ rest,
                     spos = length (concat (map atomBytes atoms))\<rparr> (scannedBuf atoms)"
proof -
  let ?d = "concat (map atomBytes atoms) @ rest"
  have "drop 0 ?d = concat (map atomBytes atoms) @ rest" by simp
  with assms have "findMoov \<lparr>sdata = ?d, spos = 0\<rparr> (replicate 8 (CHR 0x00))
        = findMoov \<lparr>sdata = ?d, spos = 0 + length (concat (map atomBytes atoms))\<rparr>
            (if atoms = [] then replicate 8 (CHR 0x00) else fst (last atoms))"
    by (intro findMoov_skip) simp_all
  then show ?thesis by (simp add: atomStream_def scannedBuf_def)
qed

lemma findMoov_found:
  assumes "\<forall>a\<in>set atoms. skippable a" "length moovHdr = 8" "take 4 (drop 4 moovHdr) = ''moov''"
  shows "findMoov (atomStream atoms (moovHdr @ rest)) (replicate 8 (CHR 0x00))
         = Some (Inr (\<lparr>sdata = concat (map atomBytes atoms) @ moovHdr @ rest,
                        spos = length (concat (map atomBytes atoms)) + 8\<rparr>, moovHdr))"
proof -
  let ?pre = "concat (map atomBytes atoms)"
  let ?d = "?pre @ moovHdr @ rest"
  have "drop (length ?pre) ?d = moovHdr @ rest" by simp
  with length_scannedBuf[OF assms(1)] assms(2)
  have "Read \<lparr>sdata = ?d, spos = length ?pre\<rparr> (scannedBuf atoms)
      = Inr (\<lparr>sdata = ?d, spos = length ?pre + 8\<rparr>, moovHdr)"
    by (rule Read_full)
  then have "findMoov \<lparr>sdata = ?d, spos = length ?pre\<rparr> (scannedBuf atoms)
      = Some (Inr (\<lparr>sdata = ?d, spos = length ?pre + 8\<rparr>, moovHdr))"
    by (subst findMoov.simps) (simp add: assms(3))
  then show ?thesis by (simp only: findMoov_atomStream[OF assms(1)])
qed

text \<open>The read after the \<open>moov\<close> header, and the one after that.\<close>

lemma Read_after_moov:
  assumes "length moovHdr = 8" "length hdr = 8" "length buf = 8"
  shows "Read \<lparr>sdata = pre @ moovHdr @ hdr @ rest, spos = length pre + 8\<rparr> buf
         = Inr (\<lparr>sdata = pre @ moovHdr @ hdr @ rest, spos = length pre + 8 + 8\<rparr>, hdr)"
proof -
  have "drop (length pre + length moovHdr) (pre @ moovHdr @ hdr @ rest) = hdr @ rest"
    by simp
  then have "drop (length pre + 8) (pre @ moovHdr @ hdr @ rest) = hdr @ rest"
    using assms(1) by simp
  with assms(3) assms(2) show ?thesis by (rule Read_full)
qed

lemma Read_window:
  assumes "length moovHdr = 8" "length hdr = 8" "length window = 8" "length buf = 8"
  shows "Read \<lparr>sdata = pre @ moovHdr @ hdr @ window @ rest, spos = length pre + 8 + 8\<rparr> buf
         = Inr (\<lparr>sdata = pre @ moovHdr @ hdr @ window @ rest, spos = length pre + 8 + 8 + 8\<rparr>,
                window)"
proof -
  have "drop (length pre + length moovHdr + length hdr) (pre @ moovHdr @ hdr @ window @ rest)
        = window @ rest"
    by simp
  then have "drop (length pre + 8 + 8) (pre @ moovHdr @ hdr @ window @ rest) = window @ rest"
    using assms(1,2) by simp
  with assms(4) assms(3) show ?thesis by (rule Read_full)
qed

text \<open>A size field of 0 on a tag that is not \<open>moov\<close>: the seek by \<open>-8\<close> returns to the
  header just read and the loop never ends.\<close>

lemma findMoov_never_returns:
  "findMoov \<lparr>sdata = [CHR 0x00, CHR 0x00, CHR 0x00, CHR 0x00] @ ''free'', spos = 0\<rparr>
     (replicate 8 (CHR 0x00)) = None"
proof -
  let ?h = "[CHR 0x00, CHR 0x00, CHR 0x00, CHR 0x00] @ ''free''"
  let ?s = "\<lparr>sdata = ?h, spos = 0\<rparr>"
  have key: "\<not> (s = ?s \<and> length buf = 8)" if r: "findMoov s buf = Some y" for s buf y
  proof (rule findMoov.raw_induct[where P = "\<lambda>s buf y. \<not> (s = ?s \<and> length buf = 8)", OF _ r])
    fix f s buf y
    assume ih: "\<And>s buf y. f s buf = Some y \<Longrightarrow> \<not> (s = ?s \<and> length buf = 8)"
      and body: "(case Read s buf of
                    Inl err \<Rightarrow> Some (Inl err)
                  | Inr (s1, buf1) \<Rightarrow>
                      if take 4 (drop 4 buf1) = ''moov'' then Some (Inr (s1, buf1))
                      else (case SeekCurrent s1 (uint (BigEndian_Uint32 buf1) - 8) of
                              Inl err \<Rightarrow> Some (Inl err)
                            | Inr s2 \<Rightarrow> f s2 buf1)) = Some y"
    show "\<not> (s = ?s \<and> length buf = 8)"
    proof
      assume a: "s = ?s \<and> length buf = 8"
      then have "Read s buf = Inr (\<lparr>sdata = ?h, spos = 8\<rparr>, ?h)"
        by (auto simp: Read_def Let_def)
      with body have fy: "f ?s ?h = Some y"
        by (simp add: SeekCurrent_def Let_def)
      from ih[OF fy] show False by simp
    qed
  qed
  show ?thesis
  proof (cases "findMoov ?s (replicate 8 (CHR 0x00))")
    case None
    then show ?thesis by simp
  next
    case (Some y)
    from key[OF this] show ?thesis by simp
  qed
qed


lemma findMoov_eof:
  assumes "length buf = 8" "length d \<le> p"
  shows "findMoov \<lparr>sdata = d, spos = p\<rparr> buf = Some (Inl EOF)"
proof -
  have "drop p d = []" using assms(2) by simp
  with assms(1) have "Read \<lparr>sdata = d, spos = p\<rparr> buf = Inl EOF" by (rule Read_eof)
  then show ?thesis by (subst findMoov.simps) simp
qed

lemma BigEndian_Uint32_take:
  "BigEndian_Uint32 (take 8 bs) = BigEndian_Uint32 bs"
proof (cases "length bs \<le> 8")
  case True
  then show ?thesis by simp
next
  case False
  then have "Suc (Suc (Suc (Suc 0))) \<le> length bs" by simp
  then obtain a b c d r where bs: "bs = a # b # c # d # r"
    by (auto simp: Suc_le_length_iff)
  show ?thesis by (simp add: bs take_Cons')
qed

lemma findMoov_cutShort:
  assumes "length buf = 8" "cutShort tail" "drop p d = tail"
  shows "findMoov \<lparr>sdata = d, spos = p\<rparr> buf = Some (Inl EOF)"
proof -
  let ?hdr = "take 8 tail"
  let ?sz = "uint (BigEndian_Uint32 tail)"
  from assms(2) have c: "8 \<le> length tail" "take 4 (drop 4 tail) \<noteq> ''moov''"
    "int (length tail) \<le> ?sz"
    by (simp_all add: cutShort_def)
  have lh: "length ?hdr = 8" using c(1) by simp
  have "drop p d = ?hdr @ drop 8 tail" using assms(3) by simp
  with assms(1) lh
  have r: "Read \<lparr>sdata = d, spos = p\<rparr> buf = Inr (\<lparr>sdata = d, spos = p + 8\<rparr>, ?hdr)"
    by (rule Read_full)
  have tag: "take 4 (drop 4 ?hdr) \<noteq> ''moov''"
    using c(2) by (simp add: drop_take)
  have sz: "uint (BigEndian_Uint32 ?hdr) = ?sz"
    by (simp only: BigEndian_Uint32_take)
  have len: "length d = p + length tail"
  proof -
    have "p \<le> length d" using assms(3) c(1) by (cases "p \<le> length d") auto
    moreover have "length (drop p d) = length tail" using assms(3) by simp
    ultimately show ?thesis by simp
  qed
  let ?q = "nat (int (p + 8) + (?sz - 8))"
  have s: "SeekCurrent \<lparr>sdata = d, spos = p + 8\<rparr> (?sz - 8) = Inr \<lparr>sdata = d, spos = ?q\<rparr>"
    using c(1,3) by (simp add: SeekCurrent_def Let_def)
  have "length d \<le> ?q" using len c(3) by simp
  with lh have e: "findMoov \<lparr>sdata = d, spos = ?q\<rparr> ?hdr = Some (Inl EOF)"
    by (rule findMoov_eof)
  show ?thesis
    by (subst findMoov.simps) (simp only: r tag sz s e sum.case prod.case if_False)
qed

section \<open>Claims about the atom walker\<close>

text \<open>
  C3.  A stream of zero or more atoms that are not \<open>moov\<close>, each as long as its size
  field says, then a \<open>moov\<close> header, then a header with tag \<open>mvhd\<close>, then eight bytes
  \<open>v f1 f2 f3 t0 t1 t2 t3\<close> (and anything after them): the walker returns the instant
  \<open>T - 2082844800\<close> seconds after the Unix epoch, in local time, where \<open>T\<close> is the
  big-endian number \<open>t0 t1 t2 t3\<close>.
\<close>

theorem creation_time_of_mvhd:
  assumes "\<forall>a\<in>set atoms. skippable a"
    and "length moovHdr = 8" "take 4 (drop 4 moovHdr) = ''moov''"
    and "length mvhdHdr = 8" "take 4 (drop 4 mvhdHdr) = ''mvhd''"
    and "window = [v, f1, f2, f3, t0, t1, t2, t3]"
    and "T = int (of_char t0) * 16777216 + int (of_char t1) * 65536 + int (of_char t2) * 256
             + int (of_char t3)"
  shows "getVideoCreationTimeMetadata (atomStream atoms (moovHdr @ mvhdHdr @ window @ rest))
         = Some (Inr (Time (T - 2082844800) Local))"
proof -
  let ?pre = "concat (map atomBytes atoms)"
  let ?d = "?pre @ moovHdr @ mvhdHdr @ window @ rest"
  have lw: "length window = 8" using assms(6) by simp
  have f: "findMoov (atomStream atoms (moovHdr @ mvhdHdr @ window @ rest)) (replicate 8 (CHR 0x00))
        = Some (Inr (\<lparr>sdata = ?d, spos = length ?pre + 8\<rparr>, moovHdr))"
    using assms(1-3) by (rule findMoov_found)
  have r1: "Read \<lparr>sdata = ?d, spos = length ?pre + 8\<rparr> moovHdr
        = Inr (\<lparr>sdata = ?d, spos = length ?pre + 8 + 8\<rparr>, mvhdHdr)"
    using assms(2) assms(4) assms(2) by (rule Read_after_moov)
  have r2: "Read \<lparr>sdata = ?d, spos = length ?pre + 8 + 8\<rparr> mvhdHdr
        = Inr (\<lparr>sdata = ?d, spos = length ?pre + 8 + 8 + 8\<rparr>, window)"
    using assms(2) assms(4) lw assms(4) by (rule Read_window)
  have t: "uint (BigEndian_Uint32 (drop 4 window)) = T"
    by (simp only: assms(6,7) drop_Suc_Cons drop_0 uint_BigEndian_Uint32 numeral_nat Suc_numeral One_nat_def)
  have "getVideoCreationTimeMetadata (atomStream atoms (moovHdr @ mvhdHdr @ window @ rest))
        = Some (Inr (Time (uint (BigEndian_Uint32 (drop 4 window)) - appleEpochAdjustment) Local))"
    unfolding getVideoCreationTimeMetadata_def f
    apply (simp only: r1 r2 assms(5) option.case sum.case prod.case Let_def)
    apply simp
    done
  then show ?thesis by (simp only: t appleEpochAdjustment_def)
qed

theorem creation_time_of_mvhd_witness:
  "skippable ([CHR 0x00, CHR 0x00, CHR 0x00, CHR 0x0C] @ ''free'', ''abcd'') \<and>
   getVideoCreationTimeMetadata
     (atomStream [([CHR 0x00, CHR 0x00, CHR 0x00, CHR 0x0C] @ ''free'', ''abcd'')]
        (([CHR 0x00, CHR 0x00, CHR 0x00, CHR 0x6C] @ ''moov'')
         @ ([CHR 0x00, CHR 0x00, CHR 0x00, CHR 0x6C] @ ''mvhd'')
         @ [CHR 0x00, CHR 0x00, CHR 0x00, CHR 0x00, CHR 0xDA, CHR 0x31, CHR 0xC2, CHR 0x00]
         @ ''trailing bytes''))
   = Some (Inr (Time 1577849216 Local))"
proof -
  have sk1: "skippable ([CHR 0x00, CHR 0x00, CHR 0x00, CHR 0x0C] @ ''free'', ''abcd'')"
    by (simp add: skippable_def uint_BigEndian_Uint32)
  then have sk: "\<forall>a\<in>set [([CHR 0x00, CHR 0x00, CHR 0x00, CHR 0x0C] @ ''free'', ''abcd'')]. skippable a"
    by simp
  show ?thesis
    using sk1
      creation_time_of_mvhd[OF sk, of "[CHR 0x00, CHR 0x00, CHR 0x00, CHR 0x6C] @ ''moov''"
        "[CHR 0x00, CHR 0x00, CHR 0x00, CHR 0x6C] @ ''mvhd''"
        "[CHR 0x00, CHR 0x00, CHR 0x00, CHR 0x00, CHR 0xDA, CHR 0x31, CHR 0xC2, CHR 0x00]"
        "CHR 0x00" "CHR 0x00" "CHR 0x00" "CHR 0x00" "CHR 0xDA" "CHR 0x31" "CHR 0xC2" "CHR 0x00"
        3660694016 "''trailing bytes''"]
    by simp
qed

text \<open>
  What the scan does at the end of a stream.  Complete atoms that are not \<open>moov\<close>,
  after which the stream ends, or holds a whole header of such an atom and fewer bytes
  than its size says: every seek lands at or past the end, the next read finds no byte,
  and the function returns the end-of-file error.
\<close>

lemma scan_ends_at_eof:
  assumes "\<forall>a\<in>set atoms. skippable a" and "tail = [] \<or> cutShort tail"
  shows "getVideoCreationTimeMetadata (atomStream atoms tail) = Some (Inl EOF)"
proof -
  let ?pre = "concat (map atomBytes atoms)"
  have lb: "length (scannedBuf atoms) = 8" using assms(1) by (simp add: length_scannedBuf)
  have f: "findMoov (atomStream atoms tail) (replicate 8 (CHR 0x00))
           = findMoov \<lparr>sdata = ?pre @ tail, spos = length ?pre\<rparr> (scannedBuf atoms)"
    using assms(1) by (simp add: findMoov_atomStream)
  have "findMoov \<lparr>sdata = ?pre @ tail, spos = length ?pre\<rparr> (scannedBuf atoms) = Some (Inl EOF)"
  proof (cases "tail = []")
    case True
    then show ?thesis using lb by (simp add: findMoov_eof)
  next
    case False
    then have "cutShort tail" using assms(2) by simp
    moreover have "drop (length ?pre) (?pre @ tail) = tail" by simp
    ultimately show ?thesis using lb by (intro findMoov_cutShort)
  qed
  then show ?thesis
    by (simp add: getVideoCreationTimeMetadata_def f)
qed

text \<open>
  A stream cut off inside a header.  Four bytes \<open>00 00 00 04\<close> are left at offset \<open>p\<close>.
  \<open>Read\<close> returns them with no error and leaves bytes 5-8 of the buffer as they were;
  the loop does not look at the number of bytes read.  The stale tag is not \<open>moov\<close>, the
  size is 4, and \<open>Seek(4 - 8)\<close> goes back to \<open>p\<close>: the scan is where it was, with a
  buffer of the same kind, and never returns.
\<close>

lemma findMoov_partial_header:
  assumes d: "drop p d = [CHR 0x00, CHR 0x00, CHR 0x00, CHR 0x04]"
    and b: "length buf = 8" "take 4 (drop 4 buf) \<noteq> ''moov''"
  shows "findMoov \<lparr>sdata = d, spos = p\<rparr> buf = None"
proof -
  let ?s = "\<lparr>sdata = d, spos = p\<rparr>"
  let ?P = "\<lambda>s buf. s = ?s \<and> length buf = 8 \<and> take 4 (drop 4 buf) \<noteq> ''moov''"
  have key: "\<not> ?P s buf" if r: "findMoov s buf = Some y" for s buf y
  proof (rule findMoov.raw_induct[where P = "\<lambda>s buf y. \<not> ?P s buf", OF _ r])
    fix f s buf y
    assume ih: "\<And>s buf y. f s buf = Some y \<Longrightarrow> \<not> ?P s buf"
      and body: "(case Read s buf of
                    Inl err \<Rightarrow> Some (Inl err)
                  | Inr (s1, buf1) \<Rightarrow>
                      if take 4 (drop 4 buf1) = ''moov'' then Some (Inr (s1, buf1))
                      else (case SeekCurrent s1 (uint (BigEndian_Uint32 buf1) - 8) of
                              Inl err \<Rightarrow> Some (Inl err)
                            | Inr s2 \<Rightarrow> f s2 buf1)) = Some y"
    show "\<not> ?P s buf"
    proof
      assume a: "?P s buf"
      then have a1: "s = ?s" and a2: "length buf = 8" and a3: "take 4 (drop 4 buf) \<noteq> ''moov''"
        by blast+
      let ?buf1 = "[CHR 0x00, CHR 0x00, CHR 0x00, CHR 0x04] @ drop 4 buf"
      have ne: "buf \<noteq> []" using a2 by auto
      have rd: "Read s buf = Inr (\<lparr>sdata = d, spos = p + 4\<rparr>, ?buf1)"
        unfolding Read_def Let_def using a1 a2 d ne by (simp add: eval_nat_numeral)
      have tg: "take 4 (drop 4 ?buf1) = take 4 (drop 4 buf)" by simp
      have l1: "length ?buf1 = 8" using a2 by simp
      have sz: "uint (BigEndian_Uint32 ?buf1) = 4"
        by (simp add: uint_BigEndian_Uint32)
      have sk: "SeekCurrent \<lparr>sdata = d, spos = p + 4\<rparr> (4 - 8) = Inr ?s"
        by (simp add: SeekCurrent_def Let_def)
      from body have fy: "f ?s ?buf1 = Some y"
        unfolding rd sum.case prod.case tg sz sk using a3 by simp
      from ih[OF fy] l1 tg a3 show False by simp
    qed
  qed
  show ?thesis
  proof (cases "findMoov ?s buf")
    case None
    then show ?thesis by simp
  next
    case (Some y)
    from key[OF this] b show ?thesis by simp
  qed
qed

lemma partial_header_never_returns:
  assumes "\<forall>a\<in>set atoms. skippable a"
  shows "getVideoCreationTimeMetadata
           (atomStream atoms [CHR 0x00, CHR 0x00, CHR 0x00, CHR 0x04]) = None"
proof -
  let ?pre = "concat (map atomBytes atoms)"
  let ?t = "[CHR 0x00, CHR 0x00, CHR 0x00, CHR 0x04]"
  have f: "findMoov (atomStream atoms ?t) (replicate 8 (CHR 0x00))
           = findMoov \<lparr>sdata = ?pre @ ?t, spos = length ?pre\<rparr> (scannedBuf atoms)"
    using assms by (rule findMoov_atomStream)
  have l: "length (scannedBuf atoms) = 8" using assms by (rule length_scannedBuf)
  have t: "take 4 (drop 4 (scannedBuf atoms)) \<noteq> ''moov''"
  proof (cases "atoms = []")
    case True
    then show ?thesis by (simp add: scannedBuf_def numeral_eq_Suc)
  next
    case False
    then have "last atoms \<in> set atoms" by simp
    with assms have "skippable (last atoms)" by blast
    then have "take 4 (drop 4 (fst (last atoms))) \<noteq> ''moov''"
      unfolding skippable_def by blast
    then show ?thesis using False by (simp add: scannedBuf_def)
  qed
  have d: "drop (length ?pre) (?pre @ ?t) = ?t" by simp
  have "findMoov \<lparr>sdata = ?pre @ ?t, spos = length ?pre\<rparr> (scannedBuf atoms) = None"
    using d l t by (rule findMoov_partial_header)
  then show ?thesis by (simp add: getVideoCreationTimeMetadata_def f)
qed

text \<open>
  A size below 8 on a tag that is not \<open>moov\<close> is followed like any other: the seek goes
  back four bytes, the next read finds \<open>moov\<close>, and the walker returns a time.
\<close>

lemma backward_seek_followed:
  "take 4 (drop 4 [CHR 0x00, CHR 0x00, CHR 0x00, CHR 0x04, CHR 0x00, CHR 0x00, CHR 0x00, CHR 0x00])
     \<noteq> ''moov'' \<and>
   uint (BigEndian_Uint32
          [CHR 0x00, CHR 0x00, CHR 0x00, CHR 0x04, CHR 0x00, CHR 0x00, CHR 0x00, CHR 0x00]) < 8 \<and>
   getVideoCreationTimeMetadata
     \<lparr>sdata = [CHR 0x00, CHR 0x00, CHR 0x00, CHR 0x04, CHR 0x00, CHR 0x00, CHR 0x00, CHR 0x00]
              @ ''moov'' @ [CHR 0x00, CHR 0x00, CHR 0x00, CHR 0x00] @ ''mvhd''
              @ [CHR 0x00, CHR 0x00, CHR 0x00, CHR 0x00, CHR 0x7C, CHR 0x25, CHR 0xB0, CHR 0x80],
      spos = 0\<rparr>
   = Some (Inr (Time 0 Local))"
proof -
  let ?h = "[CHR 0x00, CHR 0x00, CHR 0x00, CHR 0x04, CHR 0x00, CHR 0x00, CHR 0x00, CHR 0x00]"
  let ?d = "?h @ ''moov'' @ [CHR 0x00, CHR 0x00, CHR 0x00, CHR 0x00] @ ''mvhd''
              @ [CHR 0x00, CHR 0x00, CHR 0x00, CHR 0x00, CHR 0x7C, CHR 0x25, CHR 0xB0, CHR 0x80]"
  have tag: "take 4 (drop 4 ?h) \<noteq> ''moov''" by simp
  have sz: "uint (BigEndian_Uint32 ?h) = 4" by (simp add: uint_BigEndian_Uint32)
  have r0: "Read \<lparr>sdata = ?d, spos = 0\<rparr> (replicate 8 (CHR 0x00))
            = Inr (\<lparr>sdata = ?d, spos = 0 + 8\<rparr>, ?h)"
    by (rule Read_full) simp_all
  have k0: "SeekCurrent \<lparr>sdata = ?d, spos = 0 + 8\<rparr> (4 - 8) = Inr \<lparr>sdata = ?d, spos = 4\<rparr>"
    by (simp add: SeekCurrent_def Let_def)
  have r4: "Read \<lparr>sdata = ?d, spos = 4\<rparr> ?h
            = Inr (\<lparr>sdata = ?d, spos = 4 + 8\<rparr>, [CHR 0x00, CHR 0x00, CHR 0x00, CHR 0x00] @ ''moov'')"
    by (rule Read_full) simp_all
  have f4: "findMoov \<lparr>sdata = ?d, spos = 4\<rparr> ?h
            = Some (Inr (\<lparr>sdata = ?d, spos = 4 + 8\<rparr>, [CHR 0x00, CHR 0x00, CHR 0x00, CHR 0x00] @ ''moov''))"
    apply (subst findMoov.simps)
    apply (simp only: r4 sum.case prod.case)
    apply simp
    done
  have f0: "findMoov \<lparr>sdata = ?d, spos = 0\<rparr> (replicate 8 (CHR 0x00))
            = Some (Inr (\<lparr>sdata = ?d, spos = 4 + 8\<rparr>, [CHR 0x00, CHR 0x00, CHR 0x00, CHR 0x00] @ ''moov''))"
    by (subst findMoov.simps) (simp only: r0 tag sz k0 f4 sum.case prod.case if_False)
  have r12: "Read \<lparr>sdata = ?d, spos = 4 + 8\<rparr> ([CHR 0x00, CHR 0x00, CHR 0x00, CHR 0x00] @ ''moov'')
            = Inr (\<lparr>sdata = ?d, spos = 4 + 8 + 8\<rparr>, [CHR 0x00, CHR 0x00, CHR 0x00, CHR 0x00] @ ''mvhd'')"
    by (rule Read_full) simp_all
  have r20: "Read \<lparr>sdata = ?d, spos = 4 + 8 + 8\<rparr> ([CHR 0x00, CHR 0x00, CHR 0x00, CHR 0x00] @ ''mvhd'')
            = Inr (\<lparr>sdata = ?d, spos = 4 + 8 + 8 + 8\<rparr>,
                   [CHR 0x00, CHR 0x00, CHR 0x00, CHR 0x00, CHR 0x7C, CHR 0x25, CHR 0xB0, CHR 0x80])"
    by (rule Read_full) simp_all
  have "getVideoCreationTimeMetadata \<lparr>sdata = ?d, spos = 0\<rparr> = Some (Inr (Time 0 Local))"
    unfolding getVideoCreationTimeMetadata_def f0
    apply (simp only: r12 r20 option.case sum.case prod.case Let_def)
    apply (simp add: uint_BigEndian_Uint32 appleEpochAdjustment_def)
    done
  with tag sz show ?thesis by simp
qed

text \<open>
  C8.  The scan does not end with an error on every truncated stream, and it does not
  treat a size below 8 as a failure.
  \<^item> The four-byte stream \<open>00 00 00 04\<close> (a header cut in half): the function never
    returns.
  \<^item> One complete \<open>free\<close> atom followed by the same four bytes: the function never
    returns.
  \<^item> The eight-byte stream \<open>00 00 00 00 free\<close> (size 0): the function never returns.
  \<^item> A first header of size 4 whose last four bytes start a \<open>moov\<close> header: the seek
    goes backwards and the function returns a time.
\<close>

theorem truncated_header_never_returns:
  "getVideoCreationTimeMetadata
     \<lparr>sdata = [CHR 0x00, CHR 0x00, CHR 0x00, CHR 0x04], spos = 0\<rparr> = None \<and>
   getVideoCreationTimeMetadata
     (atomStream [([CHR 0x00, CHR 0x00, CHR 0x00, CHR 0x0C] @ ''free'', ''abcd'')]
        [CHR 0x00, CHR 0x00, CHR 0x00, CHR 0x04]) = None \<and>
   getVideoCreationTimeMetadata
     \<lparr>sdata = [CHR 0x00, CHR 0x00, CHR 0x00, CHR 0x00] @ ''free'', spos = 0\<rparr> = None \<and>
   getVideoCreationTimeMetadata
     \<lparr>sdata = [CHR 0x00, CHR 0x00, CHR 0x00, CHR 0x04, CHR 0x00, CHR 0x00, CHR 0x00, CHR 0x00]
              @ ''moov'' @ [CHR 0x00, CHR 0x00, CHR 0x00, CHR 0x00] @ ''mvhd''
              @ [CHR 0x00, CHR 0x00, CHR 0x00, CHR 0x00, CHR 0x7C, CHR 0x25, CHR 0xB0, CHR 0x80],
      spos = 0\<rparr>
   = Some (Inr (Time 0 Local))"
proof -
  let ?free = "([CHR 0x00, CHR 0x00, CHR 0x00, CHR 0x0C] @ ''free'', ''abcd'')"
  have a: "getVideoCreationTimeMetadata
             \<lparr>sdata = [CHR 0x00, CHR 0x00, CHR 0x00, CHR 0x04], spos = 0\<rparr> = None"
    using partial_header_never_returns[of "[]"] by (simp add: atomStream_def)
  have sk: "\<forall>a\<in>set [?free]. skippable a"
    by (simp add: skippable_def uint_BigEndian_Uint32)
  have b: "getVideoCreationTimeMetadata
             (atomStream [?free] [CHR 0x00, CHR 0x00, CHR 0x00, CHR 0x04]) = None"
    using sk by (rule partial_header_never_returns)
  have c: "getVideoCreationTimeMetadata
             \<lparr>sdata = [CHR 0x00, CHR 0x00, CHR 0x00, CHR 0x00] @ ''free'', spos = 0\<rparr> = None"
    by (simp only: getVideoCreationTimeMetadata_def findMoov_never_returns option.case)
  from a b c backward_seek_followed show ?thesis by blast
qed

text \<open>
  C9.  After the same kind of stream, a \<open>moov\<close> header followed by a header whose tag
  is not \<open>mvhd\<close>: the walker returns the error that belongs to the tag, and no time.
\<close>

theorem first_child_not_mvhd:
  assumes "\<forall>a\<in>set atoms. skippable a"
    and "length moovHdr = 8" "take 4 (drop 4 moovHdr) = ''moov''"
    and "length childHdr = 8" "take 4 (drop 4 childHdr) \<noteq> ''mvhd''"
  shows "getVideoCreationTimeMetadata (atomStream atoms (moovHdr @ childHdr @ rest))
         = Some (Inl (if take 4 (drop 4 childHdr) = ''cmov'' then CompressedVideo
                      else if take 4 (drop 4 childHdr) = ''rmra'' then ReferenceVideo
                      else MovieHeaderNotFound))"
proof -
  let ?pre = "concat (map atomBytes atoms)"
  let ?d = "?pre @ moovHdr @ childHdr @ rest"
  have f: "findMoov (atomStream atoms (moovHdr @ childHdr @ rest)) (replicate 8 (CHR 0x00))
        = Some (Inr (\<lparr>sdata = ?d, spos = length ?pre + 8\<rparr>, moovHdr))"
    using assms(1-3) by (rule findMoov_found)
  have r1: "Read \<lparr>sdata = ?d, spos = length ?pre + 8\<rparr> moovHdr
        = Inr (\<lparr>sdata = ?d, spos = length ?pre + 8 + 8\<rparr>, childHdr)"
    using assms(2) assms(4) assms(2) by (rule Read_after_moov)
  show ?thesis
    unfolding getVideoCreationTimeMetadata_def f
    apply (simp only: r1 option.case sum.case prod.case Let_def)
    using assms(5) apply simp
    done
qed

theorem first_child_not_mvhd_witness:
  "skippable ([CHR 0x00, CHR 0x00, CHR 0x00, CHR 0x0C] @ ''free'', ''abcd'') \<and>
   getVideoCreationTimeMetadata
     (atomStream [([CHR 0x00, CHR 0x00, CHR 0x00, CHR 0x0C] @ ''free'', ''abcd'')]
        (([CHR 0x00, CHR 0x00, CHR 0x00, CHR 0x6C] @ ''moov'')
         @ ([CHR 0x00, CHR 0x00, CHR 0x00, CHR 0x10] @ ''cmov'') @ ''12345678''))
     = Some (Inl CompressedVideo) \<and>
   getVideoCreationTimeMetadata
     (atomStream []
        (([CHR 0x00, CHR 0x00, CHR 0x00, CHR 0x6C] @ ''moov'')
         @ ([CHR 0x00, CHR 0x00, CHR 0x00, CHR 0x10] @ ''rmra'') @ []))
     = Some (Inl ReferenceVideo) \<and>
   getVideoCreationTimeMetadata
     (atomStream []
        (([CHR 0x00, CHR 0x00, CHR 0x00, CHR 0x6C] @ ''moov'')
         @ ([CHR 0x00, CHR 0x00, CHR 0x00, CHR 0x10] @ ''udta'') @ []))
     = Some (Inl MovieHeaderNotFound)"
proof -
  let ?free = "([CHR 0x00, CHR 0x00, CHR 0x00, CHR 0x0C] @ ''free'', ''abcd'')"
  let ?moov = "[CHR 0x00, CHR 0x00, CHR 0x00, CHR 0x6C] @ ''moov''"
  have sk: "skippable ?free"
    by (simp add: skippable_def uint_BigEndian_Uint32)
  have a: "getVideoCreationTimeMetadata
     (atomStream [?free] (?moov @ ([CHR 0x00, CHR 0x00, CHR 0x00, CHR 0x10] @ ''cmov'') @ ''12345678''))
     = Some (Inl CompressedVideo)"
    using first_child_not_mvhd[of "[?free]" ?moov "[CHR 0x00, CHR 0x00, CHR 0x00, CHR 0x10] @ ''cmov''"
        "''12345678''"] sk
    by simp
  have b: "getVideoCreationTimeMetadata
     (atomStream [] (?moov @ ([CHR 0x00, CHR 0x00, CHR 0x00, CHR 0x10] @ ''rmra'') @ []))
     = Some (Inl ReferenceVideo)"
    using first_child_not_mvhd[of "[]" ?moov "[CHR 0x00, CHR 0x00, CHR 0x00, CHR 0x10] @ ''rmra''" "[]"]
    by simp
  have c: "getVideoCreationTimeMetadata
     (atomStream [] (?moov @ ([CHR 0x00, CHR 0x00, CHR 0x00, CHR 0x10] @ ''udta'') @ []))
     = Some (Inl MovieHeaderNotFound)"
    using first_child_not_mvhd[of "[]" ?moov "[CHR 0x00, CHR 0x00, CHR 0x00, CHR 0x10] @ ''udta''" "[]"]
    by simp
  show ?thesis using sk a b c by blast
qed

section \<open>Claims about the name resolver\<close>

lemma probe_finds_first:
  assumes "i \<le> k" "k < colisionMax cfg"
    and "\<not> DoesFileExist fs (candidate dir targetBase ext k)"
    and "\<forall>j. i \<le> j \<and> j < k \<longrightarrow> DoesFileExist fs (candidate dir targetBase ext j)"
  shows "probe cfg fs dir targetBase ext i = Inr (candidate dir targetBase ext k)"
  using assms
proof (induction "k - i" arbitrary: i)
  case 0
  then have "i = k" by simp
  then show ?case using "0.prems" by (subst probe.simps) simp
next
  case (Suc n)
  then have lt: "i < k" by simp
  then have ex: "DoesFileExist fs (candidate dir targetBase ext i)"
    using Suc.prems(4) by simp
  have "probe cfg fs dir targetBase ext (i + 1) = Inr (candidate dir targetBase ext k)"
  proof (rule Suc.hyps(1))
    show "n = k - (i + 1)" using Suc.hyps(2) by simp
    show "i + 1 \<le> k" using lt by simp
    show "k < colisionMax cfg" by (rule Suc.prems(2))
    show "\<not> DoesFileExist fs (candidate dir targetBase ext k)" by (rule Suc.prems(3))
    show "\<forall>j. i + 1 \<le> j \<and> j < k \<longrightarrow> DoesFileExist fs (candidate dir targetBase ext j)"
      using Suc.prems(4) by simp
  qed
  moreover have "i < colisionMax cfg" using lt Suc.prems(2) by simp
  ultimately show ?case using ex by (subst probe.simps) simp
qed

lemma probe_exhausted:
  assumes "\<forall>j. i \<le> j \<and> j < colisionMax cfg \<longrightarrow> DoesFileExist fs (candidate dir targetBase ext j)"
  shows "probe cfg fs dir targetBase ext i = Inl NoAvailableFilename"
  using assms
proof (induction "colisionMax cfg - i" arbitrary: i)
  case 0
  then show ?case by (subst probe.simps) simp
next
  case (Suc n)
  then have lt: "i < colisionMax cfg" by simp
  then have ex: "DoesFileExist fs (candidate dir targetBase ext i)"
    using Suc.prems by simp
  have "probe cfg fs dir targetBase ext (i + 1) = Inl NoAvailableFilename"
  proof (rule Suc.hyps(1))
    show "n = colisionMax cfg - (i + 1)" using Suc.hyps(2) by simp
    show "\<forall>j. i + 1 \<le> j \<and> j < colisionMax cfg \<longrightarrow>
              DoesFileExist fs (candidate dir targetBase ext j)"
      using Suc.prems by simp
  qed
  then show ?case using lt ex by (subst probe.simps) simp
qed

text \<open>
  C2.  With \<open>d\<close> the directory of the source: the resolver returns \<open>d/b.e\<close> when that
  path does not exist; when it exists, it returns \<open>d/b-k.e\<close> for the least
  \<open>k \<ge> 1\<close> below \<open>colisionMax\<close> whose path does not exist; and when \<open>d/b.e\<close> and every
  \<open>d/b-j.e\<close> with \<open>1 \<le> j < colisionMax\<close> exist it returns an error, on which the
  caller logs the failure and neither renames the file nor changes the file system.
\<close>

theorem first_free_name:
  "(\<not> DoesFileExist fs (filepath_Join (filepath_Dir src) (targetBase @ ext))
    \<longrightarrow> renameWithCollision cfg fs src targetBase ext
         = Inr (filepath_Join (filepath_Dir src) (targetBase @ ext))) \<and>
   (DoesFileExist fs (filepath_Join (filepath_Dir src) (targetBase @ ext)) \<and>
    1 \<le> k \<and> k < colisionMax cfg \<and>
    \<not> DoesFileExist fs (filepath_Join (filepath_Dir src) (targetBase @ ''-'' @ strconv_Itoa k @ ext)) \<and>
    (\<forall>j. 1 \<le> j \<and> j < k \<longrightarrow>
       DoesFileExist fs (filepath_Join (filepath_Dir src) (targetBase @ ''-'' @ strconv_Itoa j @ ext)))
    \<longrightarrow> renameWithCollision cfg fs src targetBase ext
         = Inr (filepath_Join (filepath_Dir src) (targetBase @ ''-'' @ strconv_Itoa k @ ext))) \<and>
   (DoesFileExist fs (filepath_Join (filepath_Dir src) (targetBase @ ext)) \<and>
    (\<forall>j. 1 \<le> j \<and> j < colisionMax cfg \<longrightarrow>
       DoesFileExist fs (filepath_Join (filepath_Dir src) (targetBase @ ''-'' @ strconv_Itoa j @ ext)))
    \<longrightarrow> renameWithCollision cfg fs src targetBase ext = Inl NoAvailableFilename \<and>
        renameTo cfg \<lparr>wfs = fs, wlog = lg, wrenames = rs\<rparr> src baseName targetBase ext
         = \<lparr>wfs = fs, wlog = lg @ [CouldNotResolveCollision src NoAvailableFilename],
            wrenames = rs\<rparr>)"
proof (intro conjI impI)
  assume "\<not> DoesFileExist fs (filepath_Join (filepath_Dir src) (targetBase @ ext))"
  then show "renameWithCollision cfg fs src targetBase ext
             = Inr (filepath_Join (filepath_Dir src) (targetBase @ ext))"
    by (simp add: renameWithCollision_def)
next
  assume a: "DoesFileExist fs (filepath_Join (filepath_Dir src) (targetBase @ ext)) \<and>
    1 \<le> k \<and> k < colisionMax cfg \<and>
    \<not> DoesFileExist fs (filepath_Join (filepath_Dir src) (targetBase @ ''-'' @ strconv_Itoa k @ ext)) \<and>
    (\<forall>j. 1 \<le> j \<and> j < k \<longrightarrow>
       DoesFileExist fs (filepath_Join (filepath_Dir src) (targetBase @ ''-'' @ strconv_Itoa j @ ext)))"
  then have "probe cfg fs (filepath_Dir src) targetBase ext 1
             = Inr (candidate (filepath_Dir src) targetBase ext k)"
    by (intro probe_finds_first) (simp_all add: candidate_def)
  then show "renameWithCollision cfg fs src targetBase ext
             = Inr (filepath_Join (filepath_Dir src) (targetBase @ ''-'' @ strconv_Itoa k @ ext))"
    using a by (simp add: renameWithCollision_def candidate_def)
next
  assume a: "DoesFileExist fs (filepath_Join (filepath_Dir src) (targetBase @ ext)) \<and>
    (\<forall>j. 1 \<le> j \<and> j < colisionMax cfg \<longrightarrow>
       DoesFileExist fs (filepath_Join (filepath_Dir src) (targetBase @ ''-'' @ strconv_Itoa j @ ext)))"
  then have "probe cfg fs (filepath_Dir src) targetBase ext 1 = Inl NoAvailableFilename"
    by (intro probe_exhausted) (simp add: candidate_def)
  then have r: "renameWithCollision cfg fs src targetBase ext = Inl NoAvailableFilename"
    using a by (simp add: renameWithCollision_def)
  then show "renameWithCollision cfg fs src targetBase ext = Inl NoAvailableFilename" .
  show "renameTo cfg \<lparr>wfs = fs, wlog = lg, wrenames = rs\<rparr> src baseName targetBase ext
         = \<lparr>wfs = fs, wlog = lg @ [CouldNotResolveCollision src NoAvailableFilename],
            wrenames = rs\<rparr>"
    by (simp add: renameTo_def r emit_def)
qed

section \<open>Evaluating the model on concrete inputs\<close>

lemma isDigit_of_char: "isDigit c = (48 \<le> (of_char c :: nat) \<and> (of_char c :: nat) \<le> 57)"
  by (simp add: isDigit_def less_eq_char_def)

lemmas parse_eval =
  stdParse_def parseStamp_def parseClock_def skipChar_def skipSpace_def skipFraction_def
  isDigit_of_char digitVal_def daysIn_def isLeap_def daysFromCivil_def

lemmas format_eval =
  stdFormat_def formatStamp_def civilFromDays_def pad_def digitChar_def strconv_Itoa.simps

lemmas path_eval =
  filepath_Join_def filepath_Dir_def filepath_Base_def filepath_Ext_def filepath_Abs_def
  candidate_def digitChar_def strconv_Itoa.simps

lemmas string_eval =
  strings_ToUpper_def strings_ToLower_def toUpperChar_def toLowerChar_def
  strings_TrimSuffix_def strings_TrimPrefix_def

lemma parse_exif_2020:
  "stdParse ''2006:01:02 15:04:05'' ''2020:01:01 00:00:00'' = Inr (Time 1577836800 UTC)"
  by (simp add: parse_eval)

lemma format_2020:
  "stdFormat (Time 1577836800 UTC) ''2006-01-02 15.04.05'' = ''2020-01-01 00.00.00''"
  by (simp add: format_eval cong: let_weak_cong)

lemma parse_name_2020:
  "stdParse ''2006-01-02 15.04.05'' ''2020-01-01 00.00.00'' = Inr (Time 1577836800 UTC)"
  by (simp add: parse_eval)

lemma parse_name_2020_1:
  "stdParse ''2006-01-02 15.04.05'' ''2020-01-01 00.00.00-1'' = Inl ParseError"
  by (simp add: parse_eval)

lemma parse_name_2020_2:
  "stdParse ''2006-01-02 15.04.05'' ''2020-01-01 00.00.00-2'' = Inl ParseError"
  by (simp add: parse_eval)

lemma parse_name_short:
  "length v < 4 \<Longrightarrow> stdParse ''2006-01-02 15.04.05'' v = Inl ParseError"
  by (simp add: stdParse_def parseStamp_def)

lemma format_default_2020:
  "stdFormat (Time 1577836800 UTC) (fmtDesired defaultConfig) = ''2020-01-01 00.00.00''"
  by (simp add: defaultConfig_def format_2020)


theorem first_free_name_witness:
  "renameWithCollision defaultConfig (photoDir [''b.jpg'']) [''photos'', ''b.jpg'']
     ''2020-01-01 00.00.00'' ''.jpg''
   = Inr [''photos'', ''2020-01-01 00.00.00.jpg''] \<and>
   renameWithCollision defaultConfig
     (photoDir [''2020-01-01 00.00.00.jpg'', ''2020-01-01 00.00.00-1.jpg'', ''b.jpg''])
     [''photos'', ''b.jpg''] ''2020-01-01 00.00.00'' ''.jpg''
   = Inr [''photos'', ''2020-01-01 00.00.00-2.jpg''] \<and>
   renameWithCollision (defaultConfig\<lparr>colisionMax := 3\<rparr>)
     (photoDir [''2020-01-01 00.00.00.jpg'', ''2020-01-01 00.00.00-1.jpg'',
                ''2020-01-01 00.00.00-2.jpg'', ''b.jpg''])
     [''photos'', ''b.jpg''] ''2020-01-01 00.00.00'' ''.jpg''
   = Inl NoAvailableFilename \<and>
   renameTo (defaultConfig\<lparr>colisionMax := 3\<rparr>)
     (worldOf (photoDir [''2020-01-01 00.00.00.jpg'', ''2020-01-01 00.00.00-1.jpg'',
                         ''2020-01-01 00.00.00-2.jpg'', ''b.jpg'']))
     [''photos'', ''b.jpg''] ''b.jpg'' ''2020-01-01 00.00.00'' ''.jpg''
   = \<lparr>wfs = photoDir [''2020-01-01 00.00.00.jpg'', ''2020-01-01 00.00.00-1.jpg'',
                       ''2020-01-01 00.00.00-2.jpg'', ''b.jpg''],
      wlog = [CouldNotResolveCollision [''photos'', ''b.jpg''] NoAvailableFilename],
      wrenames = []\<rparr>"
proof -
  let ?src = "[''photos'', ''b.jpg'']"
  let ?T = "''2020-01-01 00.00.00''"
  let ?fs1 = "photoDir [''b.jpg'']"
  let ?fs2 = "photoDir [''2020-01-01 00.00.00.jpg'', ''2020-01-01 00.00.00-1.jpg'', ''b.jpg'']"
  let ?fs3 = "photoDir [''2020-01-01 00.00.00.jpg'', ''2020-01-01 00.00.00-1.jpg'',
                        ''2020-01-01 00.00.00-2.jpg'', ''b.jpg'']"
  have j0: "filepath_Join (filepath_Dir ?src) (?T @ ''.jpg'') = [''photos'', ''2020-01-01 00.00.00.jpg'']"
    by (simp add: path_eval)
  have j1: "filepath_Join (filepath_Dir ?src) (?T @ ''-'' @ strconv_Itoa 1 @ ''.jpg'')
            = [''photos'', ''2020-01-01 00.00.00-1.jpg'']"
    by (simp add: path_eval)
  have j2: "filepath_Join (filepath_Dir ?src) (?T @ ''-'' @ strconv_Itoa 2 @ ''.jpg'')
            = [''photos'', ''2020-01-01 00.00.00-2.jpg'']"
    by (simp add: path_eval)
  have a: "\<not> DoesFileExist ?fs1 (filepath_Join (filepath_Dir ?src) (?T @ ''.jpg''))"
    by (simp add: path_eval DoesFileExist_def photoDir_def)
  have b1: "DoesFileExist ?fs2 (filepath_Join (filepath_Dir ?src) (?T @ ''.jpg''))"
    by (simp add: path_eval DoesFileExist_def photoDir_def)
  have b2: "\<not> DoesFileExist ?fs2
              (filepath_Join (filepath_Dir ?src) (?T @ ''-'' @ strconv_Itoa 2 @ ''.jpg''))"
    by (simp add: path_eval DoesFileExist_def photoDir_def)
  have e21: "DoesFileExist ?fs2
               (filepath_Join (filepath_Dir ?src) (?T @ ''-'' @ strconv_Itoa 1 @ ''.jpg''))"
    by (simp add: path_eval DoesFileExist_def photoDir_def)
  have b3: "\<forall>j. 1 \<le> j \<and> j < 2 \<longrightarrow>
              DoesFileExist ?fs2 (filepath_Join (filepath_Dir ?src) (?T @ ''-'' @ strconv_Itoa j @ ''.jpg''))"
  proof (intro allI impI)
    fix j :: nat
    assume "1 \<le> j \<and> j < 2"
    then have "j = 1" by simp
    with e21 show "DoesFileExist ?fs2
                 (filepath_Join (filepath_Dir ?src) (?T @ ''-'' @ strconv_Itoa j @ ''.jpg''))"
      by simp
  qed
  have b: "DoesFileExist ?fs2 (filepath_Join (filepath_Dir ?src) (?T @ ''.jpg'')) \<and>
           1 \<le> (2::nat) \<and> 2 < colisionMax defaultConfig \<and>
           \<not> DoesFileExist ?fs2 (filepath_Join (filepath_Dir ?src) (?T @ ''-'' @ strconv_Itoa 2 @ ''.jpg'')) \<and>
           (\<forall>j. 1 \<le> j \<and> j < 2 \<longrightarrow>
              DoesFileExist ?fs2 (filepath_Join (filepath_Dir ?src) (?T @ ''-'' @ strconv_Itoa j @ ''.jpg'')))"
  proof -
    have "1 \<le> (2::nat) \<and> 2 < colisionMax defaultConfig" by (simp add: defaultConfig_def)
    with b1 b2 b3 show ?thesis by blast
  qed
  have c1: "DoesFileExist ?fs3 (filepath_Join (filepath_Dir ?src) (?T @ ''.jpg''))"
    by (simp add: path_eval DoesFileExist_def photoDir_def)
  have e31: "DoesFileExist ?fs3
               (filepath_Join (filepath_Dir ?src) (?T @ ''-'' @ strconv_Itoa 1 @ ''.jpg''))"
    by (simp add: path_eval DoesFileExist_def photoDir_def)
  have e32: "DoesFileExist ?fs3
               (filepath_Join (filepath_Dir ?src) (?T @ ''-'' @ strconv_Itoa 2 @ ''.jpg''))"
    by (simp add: path_eval DoesFileExist_def photoDir_def)
  have c2: "\<forall>j. 1 \<le> j \<and> j < colisionMax (defaultConfig\<lparr>colisionMax := 3\<rparr>) \<longrightarrow>
              DoesFileExist ?fs3 (filepath_Join (filepath_Dir ?src) (?T @ ''-'' @ strconv_Itoa j @ ''.jpg''))"
  proof (intro allI impI)
    fix j :: nat
    assume "1 \<le> j \<and> j < colisionMax (defaultConfig\<lparr>colisionMax := 3\<rparr>)"
    then have "j = 1 \<or> j = 2" by auto
    with e31 e32 show "DoesFileExist ?fs3
                 (filepath_Join (filepath_Dir ?src) (?T @ ''-'' @ strconv_Itoa j @ ''.jpg''))"
      by auto
  qed
  have c: "DoesFileExist ?fs3 (filepath_Join (filepath_Dir ?src) (?T @ ''.jpg'')) \<and>
           (\<forall>j. 1 \<le> j \<and> j < colisionMax (defaultConfig\<lparr>colisionMax := 3\<rparr>) \<longrightarrow>
              DoesFileExist ?fs3 (filepath_Join (filepath_Dir ?src) (?T @ ''-'' @ strconv_Itoa j @ ''.jpg'')))"
    using c1 c2 by blast
  note t1 = first_free_name[where fs = ?fs1 and src = ?src and targetBase = ?T and ext = "''.jpg''"
      and cfg = defaultConfig]
  note t2 = first_free_name[where fs = ?fs2 and src = ?src and targetBase = ?T and ext = "''.jpg''"
      and cfg = defaultConfig and k = 2]
  note t3 = first_free_name[where fs = ?fs3 and src = ?src and targetBase = ?T and ext = "''.jpg''"
      and cfg = "defaultConfig\<lparr>colisionMax := 3\<rparr>" and lg = "[]" and rs = "[]"
      and baseName = "''b.jpg''"]
  have r1: "renameWithCollision defaultConfig ?fs1 ?src ?T ''.jpg''
            = Inr [''photos'', ''2020-01-01 00.00.00.jpg'']"
    using t1[THEN conjunct1, rule_format, OF a] by (simp only: j0)
  have r2: "renameWithCollision defaultConfig ?fs2 ?src ?T ''.jpg''
            = Inr [''photos'', ''2020-01-01 00.00.00-2.jpg'']"
    using t2[THEN conjunct2, THEN conjunct1, rule_format, OF b] by (simp only: j2)
  have r3: "renameWithCollision (defaultConfig\<lparr>colisionMax := 3\<rparr>) ?fs3 ?src ?T ''.jpg''
            = Inl NoAvailableFilename \<and>
        renameTo (defaultConfig\<lparr>colisionMax := 3\<rparr>) \<lparr>wfs = ?fs3, wlog = [], wrenames = []\<rparr>
          ?src ''b.jpg'' ?T ''.jpg''
         = \<lparr>wfs = ?fs3, wlog = [] @ [CouldNotResolveCollision ?src NoAvailableFilename],
            wrenames = []\<rparr>"
    using t3[THEN conjunct2, THEN conjunct2, rule_format, OF c] .
  show ?thesis using r1 r2 r3 by (simp add: worldOf_def)
qed

section \<open>Claims about processFile\<close>

text \<open>
  The picture branch of \<open>processFile\<close> up to the decoded tags: the file has an
  extension that is not a movie extension, it can be read, and the decoder gives a map.
\<close>

lemma processFile_picture:
  assumes "2 \<le> length (splitOn (CHR ''.'') (filepath_Base fileWork))"
    and "\<not> inArray (strings_ToUpper (last (splitOn (CHR ''.'') (filepath_Base fileWork)))) movieExts"
    and "os_ReadFile (wfs w) fileWork = Inr input"
    and "exif_Fields lib input = Inr exifFields"
  shows "processFile lib cfg fileWork movieExts w =
     (case exifDateOf lib exifFields of
        NoDateField \<Rightarrow> Some (Returned, emit w (NoSuitableDateField fileWork))
      | NotAString \<Rightarrow> Some (Panicked, w)
      | Parsed (Inl parseErr) \<Rightarrow> Some (Returned, emit w (FailedToParseDate fileWork parseErr))
      | Parsed (Inr timeInfo) \<Rightarrow>
          (if filepath_Base fileWork
                \<noteq> time_Format lib timeInfo (fmtDesired cfg)
                  @ ''.'' @ strings_ToLower (last (splitOn (CHR ''.'') (filepath_Base fileWork)))
           then Some (Returned,
                  renameTo cfg w fileWork (filepath_Base fileWork)
                    (time_Format lib timeInfo (fmtDesired cfg))
                    (''.'' @ strings_ToLower (last (splitOn (CHR ''.'') (filepath_Base fileWork)))))
           else Some (Returned, w)))"
proof -
  have l: "\<not> length (splitOn (CHR ''.'') (filepath_Base fileWork)) < 2"
    using assms(1) by simp
  show ?thesis
    unfolding processFile_def Let_def
    by (simp only: l assms(2,3,4) if_False sum.case)
qed

text \<open>
  C6.  For a picture whose tags were decoded: when \<open>DateTimeOriginal\<close> is present (a
  string that parses), the file is named after the time parsed from it, whatever
  \<open>DateTime\<close> holds; when only \<open>DateTime\<close> is present, after the time parsed from that;
  when neither is present the function logs that no date field was found and leaves
  the file system and the renames as they were.
\<close>

theorem exif_field_priority:
  fixes lib cfg fileWork movieExts w
  defines "baseName \<equiv> filepath_Base fileWork"
  defines "extLowerDot \<equiv> ''.'' @ strings_ToLower (last (splitOn (CHR ''.'') baseName))"
  defines "namedAfter \<equiv> \<lambda>timeInfo.
     if baseName \<noteq> time_Format lib timeInfo (fmtDesired cfg) @ extLowerDot
     then renameTo cfg w fileWork baseName (time_Format lib timeInfo (fmtDesired cfg)) extLowerDot
     else w"
  assumes "2 \<le> length (splitOn (CHR ''.'') (filepath_Base fileWork))"
    and "\<not> inArray (strings_ToUpper (last (splitOn (CHR ''.'') (filepath_Base fileWork)))) movieExts"
    and "os_ReadFile (wfs w) fileWork = Inr input"
    and "exif_Fields lib input = Inr exifFields"
  shows "(exifFields ''DateTimeOriginal'' = Some (JString a) \<and>
          time_Parse lib ''2006:01:02 15:04:05'' a = Inr t
          \<longrightarrow> processFile lib cfg fileWork movieExts w = Some (Returned, namedAfter t)) \<and>
         (exifFields ''DateTimeOriginal'' = None \<and> exifFields ''DateTime'' = Some (JString b) \<and>
          time_Parse lib ''2006:01:02 15:04:05'' b = Inr t
          \<longrightarrow> processFile lib cfg fileWork movieExts w = Some (Returned, namedAfter t)) \<and>
         (exifFields ''DateTimeOriginal'' = None \<and> exifFields ''DateTime'' = None
          \<longrightarrow> processFile lib cfg fileWork movieExts w
               = Some (Returned, emit w (NoSuitableDateField fileWork)))"
proof -
  note p = processFile_picture[OF assms(4-7), of cfg]
  show ?thesis
  proof (intro conjI impI)
    assume "exifFields ''DateTimeOriginal'' = Some (JString a) \<and>
            time_Parse lib ''2006:01:02 15:04:05'' a = Inr t"
    then have "exifDateOf lib exifFields = Parsed (Inr t)"
      by (simp add: exifDateOf_def parseExifValue_def)
    then show "processFile lib cfg fileWork movieExts w = Some (Returned, namedAfter t)"
      by (simp add: p namedAfter_def baseName_def extLowerDot_def)
  next
    assume "exifFields ''DateTimeOriginal'' = None \<and> exifFields ''DateTime'' = Some (JString b) \<and>
            time_Parse lib ''2006:01:02 15:04:05'' b = Inr t"
    then have "exifDateOf lib exifFields = Parsed (Inr t)"
      by (simp add: exifDateOf_def parseExifValue_def)
    then show "processFile lib cfg fileWork movieExts w = Some (Returned, namedAfter t)"
      by (simp add: p namedAfter_def baseName_def extLowerDot_def)
  next
    assume "exifFields ''DateTimeOriginal'' = None \<and> exifFields ''DateTime'' = None"
    then have "exifDateOf lib exifFields = NoDateField"
      by (simp add: exifDateOf_def)
    then show "processFile lib cfg fileWork movieExts w
               = Some (Returned, emit w (NoSuitableDateField fileWork))"
      by (simp add: p)
  qed
qed

text \<open>
  C10.  For a picture whose tags were decoded: when \<open>DateTimeOriginal\<close> is present and
  its text does not parse, the function logs the parse failure and returns; the file
  system and the renames are as they were, whatever \<open>DateTime\<close> holds.
\<close>

theorem malformed_original_is_final:
  assumes "2 \<le> length (splitOn (CHR ''.'') (filepath_Base fileWork))"
    and "\<not> inArray (strings_ToUpper (last (splitOn (CHR ''.'') (filepath_Base fileWork)))) movieExts"
    and "os_ReadFile (wfs w) fileWork = Inr input"
    and "exif_Fields lib input = Inr exifFields"
    and "exifFields ''DateTimeOriginal'' = Some (JString a)"
    and "time_Parse lib ''2006:01:02 15:04:05'' a = Inl parseErr"
  shows "processFile lib cfg fileWork movieExts w
         = Some (Returned, w\<lparr>wlog := wlog w @ [FailedToParseDate fileWork parseErr]\<rparr>)"
proof -
  have "exifDateOf lib exifFields = Parsed (Inl parseErr)"
    using assms(5,6) by (simp add: exifDateOf_def parseExifValue_def)
  then show ?thesis
    by (simp add: processFile_picture[OF assms(1-4)] emit_def)
qed

lemma probe_shape:
  "probe cfg fs dir targetBase ext i = Inr c \<Longrightarrow> \<exists>k. c = candidate dir targetBase ext k"
proof (induction cfg fs dir targetBase ext i rule: probe.induct)
  case (1 cfg fs dir targetBase ext i)
  show ?case
  proof (cases "i < colisionMax cfg")
    case False
    then show ?thesis using "1.prems" by (subst (asm) probe.simps) simp
  next
    case True
    note lt = this
    show ?thesis
    proof (cases "DoesFileExist fs (candidate dir targetBase ext i)")
      case False
      then have "c = candidate dir targetBase ext i"
        using "1.prems" lt by (subst (asm) probe.simps) simp
      then show ?thesis by blast
    next
      case True
      then have "probe cfg fs dir targetBase ext (i + 1) = Inr c"
        using "1.prems" lt by (subst (asm) probe.simps) simp
      with "1.IH"[OF lt] True show ?thesis by simp
    qed
  qed
qed

lemma renameWithCollision_shape:
  assumes "renameWithCollision cfg fs src targetBase ext = Inr c"
  shows "\<exists>name. c = filepath_Join (filepath_Dir src) (name @ ext)"
proof (cases "DoesFileExist fs (filepath_Join (filepath_Dir src) (targetBase @ ext))")
  case False
  then have "c = filepath_Join (filepath_Dir src) (targetBase @ ext)"
    using assms by (simp add: renameWithCollision_def)
  then show ?thesis by blast
next
  case True
  then have "probe cfg fs (filepath_Dir src) targetBase ext 1 = Inr c"
    using assms by (simp add: renameWithCollision_def)
  then obtain k where "c = candidate (filepath_Dir src) targetBase ext k"
    using probe_shape by blast
  then have "c = filepath_Join (filepath_Dir src) ((targetBase @ ''-'' @ strconv_Itoa k) @ ext)"
    by (simp add: candidate_def)
  then show ?thesis by blast
qed

lemma renameTo_renames:
  "wrenames (renameTo cfg w fileWork baseName potentialName ext) = wrenames w \<or>
   (\<exists>name. wrenames (renameTo cfg w fileWork baseName potentialName ext)
            = wrenames w @ [(fileWork, filepath_Join (filepath_Dir fileWork) (name @ ext))])"
proof (cases "renameWithCollision cfg (wfs w) fileWork potentialName ext")
  case (Inl err)
  then show ?thesis by (simp add: renameTo_def emit_def)
next
  case (Inr target)
  then obtain name where n: "target = filepath_Join (filepath_Dir fileWork) (name @ ext)"
    using renameWithCollision_shape by blast
  have "wrenames (renameTo cfg w fileWork baseName potentialName ext)
        = wrenames w @ [(fileWork, target)]"
    using Inr by (simp add: renameTo_def emit_def Let_def split: sum.splits)
  then show ?thesis using n by blast
qed

text \<open>
  C7, as the code has it.  Whatever \<open>processFile\<close> does with a file, it issues at most
  one rename, of that file, and the new name ends in a dot and the lower-cased
  extension of the old name (the text after its last dot), in the same directory.
\<close>

theorem renamed_extension_is_lower_case:
  assumes "processFile lib cfg fileWork movieExts w = Some (st, w')"
  shows "wrenames w' = wrenames w \<or>
         (\<exists>name. wrenames w' = wrenames w @
            [(fileWork,
              filepath_Join (filepath_Dir fileWork)
                (name @ ''.'' @ strings_ToLower (last (splitOn (CHR ''.'') (filepath_Base fileWork)))))])"
proof -
  let ?ext = "''.'' @ strings_ToLower (last (splitOn (CHR ''.'') (filepath_Base fileWork)))"
  have r: "wrenames (renameTo cfg w fileWork b n ?ext) = wrenames w \<or>
        (\<exists>name. wrenames (renameTo cfg w fileWork b n ?ext)
            = wrenames w @ [(fileWork, filepath_Join (filepath_Dir fileWork) (name @ ?ext))])"
    for b n
    by (rule renameTo_renames)
  have "w' = w \<or> (\<exists>ev. w' = emit w ev) \<or> (\<exists>b n. w' = renameTo cfg w fileWork b n ?ext)"
    using assms
    unfolding processFile_def Let_def
    by (auto split: if_splits sum.splits option.splits exifDate.splits)
  then show ?thesis using r by (auto simp: emit_def)
qed


subsection \<open>The picture IMG.JPG\<close>

lemma base_IMG: "filepath_Base [''photos'', ''IMG.JPG''] = ''IMG.JPG''"
  by (simp add: filepath_Base_def)

lemma pieces_IMG: "splitOn (CHR ''.'') ''IMG.JPG'' = [''IMG'', ''JPG'']"
  by simp

lemma hasExt_IMG: "2 \<le> length (splitOn (CHR ''.'') (filepath_Base [''photos'', ''IMG.JPG'']))"
  by (simp add: base_IMG)

lemma notMovie_IMG:
  "\<not> inArray (strings_ToUpper (last (splitOn (CHR ''.'') (filepath_Base [''photos'', ''IMG.JPG'']))))
       (movieExtensions defaultConfig)"
  by (simp add: base_IMG string_eval defaultConfig_def)

lemma lower_IMG:
  "''.'' @ strings_ToLower (last (splitOn (CHR ''.'') (filepath_Base [''photos'', ''IMG.JPG''])))
   = ''.jpg''"
  by (simp add: base_IMG string_eval)

lemma read_IMG: "os_ReadFile (wfs imgWorld) [''photos'', ''IMG.JPG''] = Inr ''2020:01:01 00:00:00''"
  by (simp add: os_ReadFile_def imgWorld_def worldOf_def photoDir_def photo_def)

lemma renameTo_IMG:
  "renameTo defaultConfig imgWorld [''photos'', ''IMG.JPG''] ''IMG.JPG'' ''2020-01-01 00.00.00'' ''.jpg''
   = imgRenamed"
proof -
  have c: "filepath_Join (filepath_Dir [''photos'', ''IMG.JPG'']) (''2020-01-01 00.00.00'' @ ''.jpg'')
           = [''photos'', ''2020-01-01 00.00.00.jpg'']"
    by (simp add: path_eval)
  have r: "renameWithCollision defaultConfig (wfs imgWorld) [''photos'', ''IMG.JPG'']
             ''2020-01-01 00.00.00'' ''.jpg'' = Inr [''photos'', ''2020-01-01 00.00.00.jpg'']"
    unfolding renameWithCollision_def Let_def c
    by (simp add: DoesFileExist_def imgWorld_def worldOf_def photoDir_def)
  have m: "os_Rename (wfs imgWorld) [''photos'', ''IMG.JPG''] [''photos'', ''2020-01-01 00.00.00.jpg'']
           = Inr (photoDir [''2020-01-01 00.00.00.jpg''])"
    by (simp add: os_Rename_def movePath_def imgWorld_def worldOf_def photoDir_def photo_def)
  show ?thesis
    unfolding renameTo_def r sum.case Let_def m
    by (simp add: emit_def imgWorld_def imgRenamed_def worldOf_def filepath_Base_def)
qed

lemma processFile_IMG:
  "processFile stdlib defaultConfig [''photos'', ''IMG.JPG''] (movieExtensions defaultConfig) imgWorld
   = Some (Returned, imgRenamed)"
proof -
  have x: "exif_Fields stdlib ''2020:01:01 00:00:00''
           = Inr [''DateTimeOriginal'' \<mapsto> JString ''2020:01:01 00:00:00'']"
    by (simp add: stdlib_def plainExif_def)
  have d: "exifDateOf stdlib [''DateTimeOriginal'' \<mapsto> JString ''2020:01:01 00:00:00'']
           = Parsed (Inr (Time 1577836800 UTC))"
    by (simp add: exifDateOf_def parseExifValue_def stdlib_def parse_exif_2020)
  have t: "time_Format stdlib = stdFormat" by (simp add: stdlib_def)
  show ?thesis
    by (simp add: processFile_picture[OF hasExt_IMG notMovie_IMG read_IMG x] d t
        format_default_2020 base_IMG string_eval renameTo_IMG)
qed


lemma named_after_2020:
  assumes "time_Format lib = stdFormat"
  shows "(if filepath_Base [''photos'', ''IMG.JPG'']
              \<noteq> time_Format lib (Time 1577836800 UTC) (fmtDesired defaultConfig)
                @ ''.'' @ strings_ToLower (last (splitOn (CHR ''.'') (filepath_Base [''photos'', ''IMG.JPG''])))
          then renameTo defaultConfig imgWorld [''photos'', ''IMG.JPG'']
                 (filepath_Base [''photos'', ''IMG.JPG''])
                 (time_Format lib (Time 1577836800 UTC) (fmtDesired defaultConfig))
                 (''.'' @ strings_ToLower (last (splitOn (CHR ''.'') (filepath_Base [''photos'', ''IMG.JPG'']))))
          else imgWorld) = imgRenamed"
  by (simp add: assms format_default_2020 base_IMG string_eval renameTo_IMG)

theorem exif_field_priority_witness:
  "processFile (twoTags ''2020:01:01 00:00:00'' ''1999:12:31 23:59:59'') defaultConfig
     [''photos'', ''IMG.JPG''] (movieExtensions defaultConfig) imgWorld
   = Some (Returned, imgRenamed) \<and>
   processFile (oneTag ''2020:01:01 00:00:00'') defaultConfig
     [''photos'', ''IMG.JPG''] (movieExtensions defaultConfig) imgWorld
   = Some (Returned, imgRenamed) \<and>
   processFile noTags defaultConfig
     [''photos'', ''IMG.JPG''] (movieExtensions defaultConfig) imgWorld
   = Some (Returned, emit imgWorld (NoSuitableDateField [''photos'', ''IMG.JPG'']))"
proof -
  let ?A = "''2020:01:01 00:00:00''"
  let ?B = "''1999:12:31 23:59:59''"
  let ?two = "[''DateTimeOriginal'' \<mapsto> JString ?A, ''DateTime'' \<mapsto> JString ?B]"
  let ?one = "[''DateTime'' \<mapsto> JString ?A]"
  have x2: "exif_Fields (twoTags ?A ?B) ''2020:01:01 00:00:00'' = Inr ?two"
    by (simp add: twoTags_def)
  have x1: "exif_Fields (oneTag ?A) ''2020:01:01 00:00:00'' = Inr ?one"
    by (simp add: oneTag_def)
  have x0: "exif_Fields noTags ''2020:01:01 00:00:00'' = Inr Map.empty"
    by (simp add: noTags_def)
  have f2: "time_Format (twoTags ?A ?B) = stdFormat" by (simp add: twoTags_def stdlib_def)
  have f1: "time_Format (oneTag ?A) = stdFormat" by (simp add: oneTag_def stdlib_def)
  have h2: "?two ''DateTimeOriginal'' = Some (JString ?A) \<and>
            time_Parse (twoTags ?A ?B) ''2006:01:02 15:04:05'' ?A = Inr (Time 1577836800 UTC)"
    by (simp add: twoTags_def stdlib_def parse_exif_2020)
  have h1: "?one ''DateTimeOriginal'' = None \<and> ?one ''DateTime'' = Some (JString ?A) \<and>
            time_Parse (oneTag ?A) ''2006:01:02 15:04:05'' ?A = Inr (Time 1577836800 UTC)"
    by (simp add: oneTag_def stdlib_def parse_exif_2020)
  have h0: "Map.empty ''DateTimeOriginal'' = (None :: json option) \<and>
            Map.empty ''DateTime'' = (None :: json option)"
    by simp
  note t2 = exif_field_priority[OF hasExt_IMG notMovie_IMG read_IMG x2,
      where cfg = defaultConfig and a = ?A and t = "Time 1577836800 UTC",
      THEN conjunct1, rule_format, OF h2]
  note t1 = exif_field_priority[OF hasExt_IMG notMovie_IMG read_IMG x1,
      where cfg = defaultConfig and b = ?A and t = "Time 1577836800 UTC",
      THEN conjunct2, THEN conjunct1, rule_format, OF h1]
  note t0 = exif_field_priority[OF hasExt_IMG notMovie_IMG read_IMG x0,
      where cfg = defaultConfig, THEN conjunct2, THEN conjunct2, rule_format, OF h0]
  have r2: "processFile (twoTags ?A ?B) defaultConfig [''photos'', ''IMG.JPG'']
              (movieExtensions defaultConfig) imgWorld = Some (Returned, imgRenamed)"
    using t2 by (simp only: named_after_2020[OF f2])
  have r1: "processFile (oneTag ?A) defaultConfig [''photos'', ''IMG.JPG'']
              (movieExtensions defaultConfig) imgWorld = Some (Returned, imgRenamed)"
    using t1 by (simp only: named_after_2020[OF f1])
  show ?thesis using r2 r1 t0 by blast
qed

theorem malformed_original_is_final_witness:
  "stdParse ''2006:01:02 15:04:05'' ''yesterday'' = Inl ParseError \<and>
   stdParse ''2006:01:02 15:04:05'' ''2020:01:01 00:00:00'' = Inr (Time 1577836800 UTC) \<and>
   processFile (twoTags ''yesterday'' ''2020:01:01 00:00:00'') defaultConfig
     [''photos'', ''IMG.JPG''] (movieExtensions defaultConfig) imgWorld
   = Some (Returned, imgWorld\<lparr>wlog := wlog imgWorld
                                   @ [FailedToParseDate [''photos'', ''IMG.JPG''] ParseError]\<rparr>)"
proof -
  let ?two = "[''DateTimeOriginal'' \<mapsto> JString ''yesterday'', ''DateTime'' \<mapsto> JString ''2020:01:01 00:00:00'']"
  have p: "stdParse ''2006:01:02 15:04:05'' ''yesterday'' = Inl ParseError"
    by (simp add: parse_eval)
  have x: "exif_Fields (twoTags ''yesterday'' ''2020:01:01 00:00:00'') ''2020:01:01 00:00:00'' = Inr ?two"
    by (simp add: twoTags_def)
  have o: "?two ''DateTimeOriginal'' = Some (JString ''yesterday'')"
    by simp
  have q: "time_Parse (twoTags ''yesterday'' ''2020:01:01 00:00:00'') ''2006:01:02 15:04:05'' ''yesterday''
           = Inl ParseError"
    by (simp add: twoTags_def stdlib_def p)
  from malformed_original_is_final[OF hasExt_IMG notMovie_IMG read_IMG x o q, of defaultConfig]
    p parse_exif_2020
  show ?thesis by blast
qed


theorem renamed_extension_is_lower_case_witness:
  "processFile stdlib defaultConfig [''photos'', ''IMG.JPG''] (movieExtensions defaultConfig) imgWorld
   = Some (Returned, imgRenamed) \<and>
   (\<exists>name. wrenames imgRenamed = wrenames imgWorld @
       [([''photos'', ''IMG.JPG''],
         filepath_Join (filepath_Dir [''photos'', ''IMG.JPG''])
           (name @ ''.'' @ strings_ToLower
              (last (splitOn (CHR ''.'') (filepath_Base [''photos'', ''IMG.JPG''])))))])"
proof -
  have "wrenames imgRenamed \<noteq> wrenames imgWorld"
    by (simp add: imgRenamed_def imgWorld_def worldOf_def)
  with processFile_IMG renamed_extension_is_lower_case[OF processFile_IMG]
  show ?thesis by blast
qed

text \<open>
  C7 as the claim has it fails: \<open>IMG.JPG\<close> becomes \<open>2020-01-01 00.00.00.jpg\<close>, so the
  extension \<open>.JPG\<close> of the source is not kept as it was.
\<close>

theorem upper_case_extension_counterexample:
  "processFile stdlib defaultConfig [''photos'', ''IMG.JPG''] (movieExtensions defaultConfig)
     \<lparr>wfs = [([], Dir), ([''photos''], Dir),
              ([''photos'', ''IMG.JPG''], File ''2020:01:01 00:00:00'' 420)],
      wlog = [], wrenames = []\<rparr>
   = Some (Returned,
       \<lparr>wfs = [([], Dir), ([''photos''], Dir),
                ([''photos'', ''2020-01-01 00.00.00.jpg''], File ''2020:01:01 00:00:00'' 420)],
        wlog = [Renamed ''IMG.JPG'' ''2020-01-01 00.00.00.jpg''],
        wrenames = [([''photos'', ''IMG.JPG''], [''photos'', ''2020-01-01 00.00.00.jpg''])]\<rparr>) \<and>
   filepath_Ext ''IMG.JPG'' = ''.JPG'' \<and>
   filepath_Ext ''2020-01-01 00.00.00.jpg'' = ''.jpg''"
proof -
  have "filepath_Ext ''IMG.JPG'' = ''.JPG''" "filepath_Ext ''2020-01-01 00.00.00.jpg'' = ''.jpg''"
    by (simp_all add: filepath_Ext_def)
  moreover have "imgWorld = \<lparr>wfs = [([], Dir), ([''photos''], Dir),
              ([''photos'', ''IMG.JPG''], File ''2020:01:01 00:00:00'' 420)],
      wlog = [], wrenames = []\<rparr>"
    by (simp add: imgWorld_def worldOf_def photoDir_def photo_def)
  moreover have "imgRenamed = \<lparr>wfs = [([], Dir), ([''photos''], Dir),
                ([''photos'', ''2020-01-01 00.00.00.jpg''], File ''2020:01:01 00:00:00'' 420)],
        wlog = [Renamed ''IMG.JPG'' ''2020-01-01 00.00.00.jpg''],
        wrenames = [([''photos'', ''IMG.JPG''], [''photos'', ''2020-01-01 00.00.00.jpg''])]\<rparr>"
    by (simp add: imgRenamed_def photoDir_def photo_def)
  ultimately show ?thesis using processFile_IMG by simp
qed

section \<open>Claims about the backup\<close>

lemma foldl_count:
  "foldl (\<lambda>count pe. if P pe then count + 1 else count) n xs = n + length (filter P xs)"
  by (induction xs arbitrary: n) simp_all

lemma countFilteredFiles_exists:
  assumes "DoesFileExist fs directory"
  shows "countFilteredFiles cfg fs directory
         = Inr (length (filter (isFiltered cfg) (filter (\<lambda>(p, info). prefix directory p) fs)))"
proof -
  have "length (filter (isFiltered cfg) (sort_key fst (filter (\<lambda>(p, info). prefix directory p) fs)))
        = length (filter (isFiltered cfg) (filter (\<lambda>(p, info). prefix directory p) fs))"
    by (simp add: filter_sort)
  then show ?thesis
    using assms by (simp add: countFilteredFiles_def filepath_Walk_def DoesFileExist_def foldl_count)
qed


lemma verifyBackup_counts:
  assumes "DoesFileExist (wfs w) originalAbsPath" and "DoesFileExist (wfs w) backupDirPath"
  shows "verifyBackup cfg w originalAbsPath backupDirPath
         = (let originalCount = length (filter (isFiltered cfg)
                                  (filter (\<lambda>(p, info). prefix originalAbsPath p) (wfs w)));
                backupCount = length (filter (isFiltered cfg)
                                  (filter (\<lambda>(p, info). prefix backupDirPath p) (wfs w)))
            in if originalCount = backupCount
               then w\<lparr>wfs := os_RemoveAll (wfs w) backupDirPath,
                      wlog := wlog w @ [BackupRemoved backupDirPath originalCount]\<rparr>
               else w\<lparr>wlog := wlog w @ [BackupRetained backupDirPath originalCount backupCount]\<rparr>)"
  using assms
  by (simp add: verifyBackup_def countFilesInDirs_def countFilteredFiles_exists emit_def Let_def)

lemma isFiltered_jpg:
  assumes "filepath_Ext n = ''.jpg''"
  shows "isFiltered defaultConfig ([d, n], photo)"
  using assms by (simp add: isFiltered_def photo_def filepath_Base_def strings_ToUpper_def
      toUpperChar_def strings_TrimPrefix_def defaultConfig_def)

lemma isFiltered_Dir: "\<not> isFiltered cfg (p, Dir)"
  by (simp add: isFiltered_def)




subsection \<open>Two runs over two pictures taken in the same second\<close>

lemmas fs_eval =
  DoesFileExist_def os_ReadFile_def os_WriteFile_def os_MkdirAll_def os_Rename_def os_RemoveAll_def
  movePath_def setEntry_def filepath_Walk_def filepath_Rel_def

lemma abs_photos: "filepath_Abs [] ''/photos'' = [''photos'']"
  by (simp add: filepath_Abs_def)

lemma backupPath_photos:
  "filepath_Join (filepath_Dir [''photos'']) (filepath_Base [''photos''] @ backupSuffix)
   = [''photos - Backup Exif'']"
  by (simp add: path_eval backupSuffix_def)

lemma prefixes_backupPath:
  "prefixes [''photos - Backup Exif''] = [[], [''photos - Backup Exif'']]"
  by simp

lemma stdlib_fields:
  "time_Parse stdlib = stdParse" "time_Format stdlib = stdFormat" "exif_Fields stdlib = plainExif"
  by (simp_all add: stdlib_def)

lemma exifDate_photo:
  "exifDateOf stdlib [''DateTimeOriginal'' \<mapsto> JString ''2020:01:01 00:00:00'']
   = Parsed (Inr (Time 1577836800 UTC))"
  by (simp add: exifDateOf_def parseExifValue_def stdlib_fields parse_exif_2020)

lemma plainExif_photo:
  "exif_Fields stdlib ''2020:01:01 00:00:00''
   = Inr [''DateTimeOriginal'' \<mapsto> JString ''2020:01:01 00:00:00'']"
  by (simp add: stdlib_fields plainExif_def)

text \<open>
  What \<open>processFile\<close> does with a picture of the example: it is named after
  \<open>2020-01-01 00.00.00\<close>.
\<close>

lemma processFile_photo:
  assumes "2 \<le> length (splitOn (CHR ''.'') (filepath_Base f))"
    and "\<not> inArray (strings_ToUpper (last (splitOn (CHR ''.'') (filepath_Base f))))
             (movieExtensions defaultConfig)"
    and "os_ReadFile (wfs w) f = Inr ''2020:01:01 00:00:00''"
  shows "processFile stdlib defaultConfig f (movieExtensions defaultConfig) w
         = (if filepath_Base f
                 \<noteq> ''2020-01-01 00.00.00'' @ ''.''
                   @ strings_ToLower (last (splitOn (CHR ''.'') (filepath_Base f)))
            then Some (Returned,
                   renameTo defaultConfig w f (filepath_Base f) ''2020-01-01 00.00.00''
                     (''.'' @ strings_ToLower (last (splitOn (CHR ''.'') (filepath_Base f)))))
            else Some (Returned, w))"
  by (simp only: processFile_picture[OF assms plainExif_photo] exifDate_photo exifDate.case
      sum.case stdlib_fields format_default_2020)

text \<open>The first run: \<open>a.jpg\<close> and \<open>b.jpg\<close>.\<close>

lemma run1_backup:
  "backupDirectory (photoDir [''a.jpg'', ''b.jpg'']) [''photos'']
   = (photoDir [''a.jpg'', ''b.jpg''] @ backupOf [''a.jpg'', ''b.jpg''],
      Inr [''photos - Backup Exif''])"
proof -
  have wk: "filepath_Walk (photoDir [''a.jpg'', ''b.jpg'']) [''photos'']
            = Inr [([''photos''], Dir), ([''photos'', ''a.jpg''], photo),
                   ([''photos'', ''b.jpg''], photo)]"
    by (simp add: filepath_Walk_def photoDir_def)
  show ?thesis
    unfolding backupDirectory_def Let_def backupPath_photos wk
    by (simp add: fs_eval photoDir_def backupOf_def photo_def prefixes_backupPath)
qed

lemma run1_files:
  "recurseFiles (photoDir [''a.jpg'', ''b.jpg''] @ backupOf [''a.jpg'', ''b.jpg'']) [''photos'']
   = Inr [[''photos'', ''a.jpg''], [''photos'', ''b.jpg'']]"
  by (simp add: recurseFiles_def filepath_Walk_def photoDir_def backupOf_def photo_def)


lemma run1_A:
  "processFile stdlib defaultConfig [''photos'', ''a.jpg''] (movieExtensions defaultConfig) run1_backedUp
   = Some (Returned, run1_afterA)"
proof -
  have b: "filepath_Base [''photos'', ''a.jpg''] = ''a.jpg''" by (simp add: filepath_Base_def)
  have h1: "2 \<le> length (splitOn (CHR ''.'') (filepath_Base [''photos'', ''a.jpg'']))"
    by (simp add: b)
  have h2: "\<not> inArray (strings_ToUpper (last (splitOn (CHR ''.'') (filepath_Base [''photos'', ''a.jpg'']))))
             (movieExtensions defaultConfig)"
    by (simp add: b string_eval defaultConfig_def)
  have h3: "os_ReadFile (wfs run1_backedUp) [''photos'', ''a.jpg''] = Inr ''2020:01:01 00:00:00''"
    by (simp add: os_ReadFile_def run1_backedUp_def photoDir_def photo_def)
  have lo: "''.'' @ strings_ToLower (last (splitOn (CHR ''.'') (filepath_Base [''photos'', ''a.jpg''])))
            = ''.jpg''"
    by (simp add: b string_eval)
  have c: "filepath_Join (filepath_Dir [''photos'', ''a.jpg'']) (''2020-01-01 00.00.00'' @ ''.jpg'')
           = [''photos'', ''2020-01-01 00.00.00.jpg'']"
    by (simp add: path_eval)
  have r: "renameWithCollision defaultConfig (wfs run1_backedUp) [''photos'', ''a.jpg'']
             ''2020-01-01 00.00.00'' ''.jpg'' = Inr [''photos'', ''2020-01-01 00.00.00.jpg'']"
    unfolding renameWithCollision_def Let_def c
    by (simp add: DoesFileExist_def run1_backedUp_def photoDir_def backupOf_def)
  have m: "os_Rename (wfs run1_backedUp) [''photos'', ''a.jpg''] [''photos'', ''2020-01-01 00.00.00.jpg'']
           = Inr (wfs run1_afterA)"
    by (simp add: os_Rename_def movePath_def run1_backedUp_def run1_afterA_def photoDir_def
        backupOf_def photo_def)
  have t: "renameTo defaultConfig run1_backedUp [''photos'', ''a.jpg''] ''a.jpg''
             ''2020-01-01 00.00.00'' ''.jpg'' = run1_afterA"
    unfolding renameTo_def r sum.case Let_def m
    by (simp add: emit_def run1_backedUp_def run1_afterA_def filepath_Base_def)
  show ?thesis
    unfolding processFile_photo[OF h1 h2 h3] lo
    by (simp add: b t)
qed

lemma run1_B:
  "processFile stdlib defaultConfig [''photos'', ''b.jpg''] (movieExtensions defaultConfig) run1_afterA
   = Some (Returned, run1_afterB)"
proof -
  have b: "filepath_Base [''photos'', ''b.jpg''] = ''b.jpg''" by (simp add: filepath_Base_def)
  have h1: "2 \<le> length (splitOn (CHR ''.'') (filepath_Base [''photos'', ''b.jpg'']))"
    by (simp add: b)
  have h2: "\<not> inArray (strings_ToUpper (last (splitOn (CHR ''.'') (filepath_Base [''photos'', ''b.jpg'']))))
             (movieExtensions defaultConfig)"
    by (simp add: b string_eval defaultConfig_def)
  have h3: "os_ReadFile (wfs run1_afterA) [''photos'', ''b.jpg''] = Inr ''2020:01:01 00:00:00''"
    by (simp add: os_ReadFile_def run1_afterA_def photoDir_def photo_def)
  have lo: "''.'' @ strings_ToLower (last (splitOn (CHR ''.'') (filepath_Base [''photos'', ''b.jpg''])))
            = ''.jpg''"
    by (simp add: b string_eval)
  have c: "filepath_Join (filepath_Dir [''photos'', ''b.jpg'']) (''2020-01-01 00.00.00'' @ ''.jpg'')
           = [''photos'', ''2020-01-01 00.00.00.jpg'']"
    by (simp add: path_eval)
  have c1: "candidate (filepath_Dir [''photos'', ''b.jpg'']) ''2020-01-01 00.00.00'' ''.jpg'' 1
           = [''photos'', ''2020-01-01 00.00.00-1.jpg'']"
    by (simp add: path_eval)
  have p: "probe defaultConfig (wfs run1_afterA) (filepath_Dir [''photos'', ''b.jpg''])
             ''2020-01-01 00.00.00'' ''.jpg'' 1 = Inr [''photos'', ''2020-01-01 00.00.00-1.jpg'']"
    apply (subst probe.simps)
    unfolding c1
    apply (simp add: DoesFileExist_def run1_afterA_def photoDir_def backupOf_def defaultConfig_def)
    done
  have r: "renameWithCollision defaultConfig (wfs run1_afterA) [''photos'', ''b.jpg'']
             ''2020-01-01 00.00.00'' ''.jpg'' = Inr [''photos'', ''2020-01-01 00.00.00-1.jpg'']"
    unfolding renameWithCollision_def Let_def c p
    by (simp add: DoesFileExist_def run1_afterA_def photoDir_def backupOf_def)
  have m: "os_Rename (wfs run1_afterA) [''photos'', ''b.jpg''] [''photos'', ''2020-01-01 00.00.00-1.jpg'']
           = Inr (wfs run1_afterB)"
    by (simp add: os_Rename_def movePath_def run1_afterA_def run1_afterB_def photoDir_def
        backupOf_def photo_def)
  have t: "renameTo defaultConfig run1_afterA [''photos'', ''b.jpg''] ''b.jpg''
             ''2020-01-01 00.00.00'' ''.jpg'' = run1_afterB"
    unfolding renameTo_def r sum.case Let_def m
    by (simp add: emit_def run1_afterA_def run1_afterB_def filepath_Base_def)
  show ?thesis
    unfolding processFile_photo[OF h1 h2 h3] lo
    by (simp add: b t)
qed

text \<open>The guard of the loop on a picture name: its extension is recognised.\<close>

lemma guard_jpg:
  assumes "filepath_Base f = stem @ ''.jpg''"
    and "filepath_Ext (stem @ ''.jpg'') = ''.jpg''"
  shows "mainLoop stdlib defaultConfig (f # rest) w
         = (case stdParse ''2006-01-02 15.04.05'' stem of
              Inr t \<Rightarrow> mainLoop stdlib defaultConfig rest (emit w (AlreadyInFormat (stem @ ''.jpg'')))
            | Inl parseErr \<Rightarrow>
                (case processFile stdlib defaultConfig f (movieExtensions defaultConfig) w of
                   None \<Rightarrow> None
                 | Some (Panicked, w1) \<Rightarrow> Some (Panicked, w1)
                 | Some (Returned, w1) \<Rightarrow> mainLoop stdlib defaultConfig rest w1))"
proof -
  have e: "strings_TrimPrefix (strings_ToUpper (filepath_Ext (stem @ ''.jpg''))) ''.'' = ''JPG''"
    by (simp add: assms(2) string_eval)
  have i: "inArray ''JPG'' (pictureExtensions defaultConfig)"
    by (simp add: defaultConfig_def)
  have lj: "''.'' @ strings_ToLower ''JPG'' = ''.jpg''"
    by (simp add: string_eval)
  have sf: "suffix ''.jpg'' (stem @ ''.jpg'')"
    by (rule suffixI) simp
  have n: "strings_TrimSuffix (stem @ ''.jpg'') (''.'' @ strings_ToLower ''JPG'') = stem"
    unfolding lj by (simp add: strings_TrimSuffix_def sf)
  have d: "fmtDesired defaultConfig = ''2006-01-02 15.04.05''"
    by (simp add: defaultConfig_def)
  show ?thesis
    by (simp only: mainLoop.simps Let_def e i n d stdlib_fields assms(1) if_True simp_thms)
qed

lemma run1_loop:
  "mainLoop stdlib defaultConfig [[''photos'', ''a.jpg''], [''photos'', ''b.jpg'']] run1_backedUp
   = Some (Returned, run1_afterB)"
proof -
  have ga: "filepath_Base [''photos'', ''a.jpg''] = ''a'' @ ''.jpg''"
    and gb: "filepath_Base [''photos'', ''b.jpg''] = ''b'' @ ''.jpg''"
    by (simp_all add: filepath_Base_def)
  have ea: "filepath_Ext (''a'' @ ''.jpg'') = ''.jpg''" and eb: "filepath_Ext (''b'' @ ''.jpg'') = ''.jpg''"
    by (simp_all add: filepath_Ext_def)
  have pa: "stdParse ''2006-01-02 15.04.05'' ''a'' = Inl ParseError"
    and pb: "stdParse ''2006-01-02 15.04.05'' ''b'' = Inl ParseError"
    by (simp_all add: parse_name_short)
  show ?thesis
    apply (subst guard_jpg[OF ga ea])
    apply (simp only: pa sum.case run1_A option.case prod.case status.case)
    apply (subst guard_jpg[OF gb eb])
    apply (simp only: pb sum.case run1_B option.case prod.case status.case mainLoop.simps(1))
    done
qed

lemma ext_of_names:
  "filepath_Ext ''a.jpg'' = ''.jpg''" "filepath_Ext ''b.jpg'' = ''.jpg''"
  "filepath_Ext ''2020-01-01 00.00.00.jpg'' = ''.jpg''"
  "filepath_Ext ''2020-01-01 00.00.00-1.jpg'' = ''.jpg''"
  "filepath_Ext ''2020-01-01 00.00.00-2.jpg'' = ''.jpg''"
  by (simp_all add: filepath_Ext_def)

lemmas filtered_names = ext_of_names[THEN isFiltered_jpg] isFiltered_Dir

lemma run1_verify:
  "emit (verifyBackup defaultConfig run1_afterB [''photos''] [''photos - Backup Exif'']) Completed
   = run1_done"
proof -
  have e: "DoesFileExist (wfs run1_afterB) [''photos'']"
    "DoesFileExist (wfs run1_afterB) [''photos - Backup Exif'']"
    by (simp_all add: DoesFileExist_def run1_afterB_def photoDir_def backupOf_def)
  show ?thesis
    unfolding verifyBackup_counts[OF e]
    by (simp add: run1_afterB_def run1_done_def photoDir_def backupOf_def filtered_names
        os_RemoveAll_def emit_def)
qed

lemma runOn_completes:
  assumes "DoesFileExist (wfs w) [''photos'']"
    and "backupDirectory (wfs w) [''photos''] = (fs1, Inr bk)"
    and "recurseFiles fs1 [''photos''] = Inr files"
    and "mainLoop stdlib defaultConfig files (emit (w\<lparr>wfs := fs1\<rparr>) (BackupCreated bk))
         = Some (Returned, w2)"
  shows "runOn w = Some (ExitOK, emit (verifyBackup defaultConfig w2 [''photos''] bk) Completed)"
proof -
  have f: "recurseFiles (wfs (emit (w\<lparr>wfs := fs1\<rparr>) (BackupCreated bk))) [''photos''] = Inr files"
    using assms(3) by (simp add: emit_def)
  show ?thesis
    unfolding runOn_def main_def
    by (simp add: abs_photos assms(1,2,4) f Let_def del: mainLoop.simps)
qed

lemma first_run:
  "runOn (worldOf (photoDir [''a.jpg'', ''b.jpg''])) = Some (ExitOK, run1_done)"
proof -
  let ?w = "worldOf (photoDir [''a.jpg'', ''b.jpg''])"
  have x: "DoesFileExist (wfs ?w) [''photos'']"
    by (simp add: DoesFileExist_def worldOf_def photoDir_def)
  have k: "backupDirectory (wfs ?w) [''photos'']
           = (photoDir [''a.jpg'', ''b.jpg''] @ backupOf [''a.jpg'', ''b.jpg''],
              Inr [''photos - Backup Exif''])"
    using run1_backup by (simp add: worldOf_def)
  have b: "emit (?w\<lparr>wfs := photoDir [''a.jpg'', ''b.jpg''] @ backupOf [''a.jpg'', ''b.jpg'']\<rparr>)
             (BackupCreated [''photos - Backup Exif'']) = run1_backedUp"
    by (simp add: emit_def worldOf_def run1_backedUp_def)
  have l: "mainLoop stdlib defaultConfig [[''photos'', ''a.jpg''], [''photos'', ''b.jpg'']]
             (emit (?w\<lparr>wfs := photoDir [''a.jpg'', ''b.jpg''] @ backupOf [''a.jpg'', ''b.jpg'']\<rparr>)
                (BackupCreated [''photos - Backup Exif'']))
           = Some (Returned, run1_afterB)"
    unfolding b by (rule run1_loop)
  show ?thesis
    using runOn_completes[OF x k run1_files l] by (simp only: run1_verify)
qed


text \<open>The second run: \<open>2020-01-01 00.00.00.jpg\<close> and \<open>2020-01-01 00.00.00-1.jpg\<close>.\<close>

lemma run2_backup:
  "backupDirectory (photoDir [''2020-01-01 00.00.00.jpg'', ''2020-01-01 00.00.00-1.jpg'']) [''photos'']
   = (photoDir [''2020-01-01 00.00.00.jpg'', ''2020-01-01 00.00.00-1.jpg'']
        @ backupOf [''2020-01-01 00.00.00-1.jpg'', ''2020-01-01 00.00.00.jpg''],
      Inr [''photos - Backup Exif''])"
proof -
  have wk: "filepath_Walk (photoDir [''2020-01-01 00.00.00.jpg'', ''2020-01-01 00.00.00-1.jpg''])
              [''photos'']
            = Inr [([''photos''], Dir), ([''photos'', ''2020-01-01 00.00.00-1.jpg''], photo),
                   ([''photos'', ''2020-01-01 00.00.00.jpg''], photo)]"
    by (simp add: filepath_Walk_def photoDir_def)
  show ?thesis
    unfolding backupDirectory_def Let_def backupPath_photos wk
    by (simp add: fs_eval photoDir_def backupOf_def photo_def prefixes_backupPath)
qed

lemma run2_files:
  "recurseFiles (photoDir [''2020-01-01 00.00.00.jpg'', ''2020-01-01 00.00.00-1.jpg'']
                   @ backupOf [''2020-01-01 00.00.00-1.jpg'', ''2020-01-01 00.00.00.jpg''])
     [''photos'']
   = Inr [[''photos'', ''2020-01-01 00.00.00-1.jpg''], [''photos'', ''2020-01-01 00.00.00.jpg'']]"
  by (simp add: recurseFiles_def filepath_Walk_def photoDir_def backupOf_def photo_def)

lemma run2_first:
  "processFile stdlib defaultConfig [''photos'', ''2020-01-01 00.00.00-1.jpg'']
     (movieExtensions defaultConfig) run2_backedUp
   = Some (Returned, run2_afterFirst)"
proof -
  let ?f = "[''photos'', ''2020-01-01 00.00.00-1.jpg'']"
  have b: "filepath_Base ?f = ''2020-01-01 00.00.00-1.jpg''" by (simp add: filepath_Base_def)
  have sp: "splitOn (CHR ''.'') ''2020-01-01 00.00.00-1.jpg'' = [''2020-01-01 00'', ''00'', ''00-1'', ''jpg'']"
    by simp
  have h1: "2 \<le> length (splitOn (CHR ''.'') (filepath_Base ?f))"
    by (simp add: b)
  have h2: "\<not> inArray (strings_ToUpper (last (splitOn (CHR ''.'') (filepath_Base ?f))))
             (movieExtensions defaultConfig)"
    by (simp add: b string_eval defaultConfig_def)
  have h3: "os_ReadFile (wfs run2_backedUp) ?f = Inr ''2020:01:01 00:00:00''"
    by (simp add: os_ReadFile_def run2_backedUp_def photoDir_def photo_def)
  have lo: "''.'' @ strings_ToLower (last (splitOn (CHR ''.'') (filepath_Base ?f))) = ''.jpg''"
    by (simp add: b string_eval)
  have c: "filepath_Join (filepath_Dir ?f) (''2020-01-01 00.00.00'' @ ''.jpg'')
           = [''photos'', ''2020-01-01 00.00.00.jpg'']"
    by (simp add: path_eval)
  have c1: "candidate (filepath_Dir ?f) ''2020-01-01 00.00.00'' ''.jpg'' 1
           = [''photos'', ''2020-01-01 00.00.00-1.jpg'']"
    by (simp add: path_eval)
  have c2: "candidate (filepath_Dir ?f) ''2020-01-01 00.00.00'' ''.jpg'' (1 + 1)
           = [''photos'', ''2020-01-01 00.00.00-2.jpg'']"
    by (simp add: path_eval)
  have p2: "probe defaultConfig (wfs run2_backedUp) (filepath_Dir ?f)
             ''2020-01-01 00.00.00'' ''.jpg'' (1 + 1) = Inr [''photos'', ''2020-01-01 00.00.00-2.jpg'']"
    apply (subst probe.simps)
    unfolding c2
    apply (simp add: DoesFileExist_def run2_backedUp_def photoDir_def backupOf_def defaultConfig_def)
    done
  have p1: "probe defaultConfig (wfs run2_backedUp) (filepath_Dir ?f)
             ''2020-01-01 00.00.00'' ''.jpg'' 1 = Inr [''photos'', ''2020-01-01 00.00.00-2.jpg'']"
    apply (subst probe.simps)
    unfolding c1 p2
    apply (simp add: DoesFileExist_def run2_backedUp_def photoDir_def backupOf_def defaultConfig_def)
    done
  have r: "renameWithCollision defaultConfig (wfs run2_backedUp) ?f
             ''2020-01-01 00.00.00'' ''.jpg'' = Inr [''photos'', ''2020-01-01 00.00.00-2.jpg'']"
    unfolding renameWithCollision_def Let_def c p1
    by (simp add: DoesFileExist_def run2_backedUp_def photoDir_def backupOf_def)
  have m: "os_Rename (wfs run2_backedUp) ?f [''photos'', ''2020-01-01 00.00.00-2.jpg'']
           = Inr (wfs run2_afterFirst)"
    by (simp add: os_Rename_def movePath_def run2_backedUp_def run2_afterFirst_def photoDir_def
        backupOf_def photo_def)
  have t: "renameTo defaultConfig run2_backedUp ?f ''2020-01-01 00.00.00-1.jpg''
             ''2020-01-01 00.00.00'' ''.jpg'' = run2_afterFirst"
    unfolding renameTo_def r sum.case Let_def m
    by (simp add: emit_def run2_backedUp_def run2_afterFirst_def filepath_Base_def)
  show ?thesis
    unfolding processFile_photo[OF h1 h2 h3] lo
    by (simp add: b t)
qed

lemma run2_loop:
  "mainLoop stdlib defaultConfig
     [[''photos'', ''2020-01-01 00.00.00-1.jpg''], [''photos'', ''2020-01-01 00.00.00.jpg'']]
     run2_backedUp
   = Some (Returned, emit run2_afterFirst (AlreadyInFormat ''2020-01-01 00.00.00.jpg''))"
proof -
  have g1: "filepath_Base [''photos'', ''2020-01-01 00.00.00-1.jpg''] = ''2020-01-01 00.00.00-1'' @ ''.jpg''"
    and g0: "filepath_Base [''photos'', ''2020-01-01 00.00.00.jpg''] = ''2020-01-01 00.00.00'' @ ''.jpg''"
    by (simp_all add: filepath_Base_def)
  have e1: "filepath_Ext (''2020-01-01 00.00.00-1'' @ ''.jpg'') = ''.jpg''"
    and e0: "filepath_Ext (''2020-01-01 00.00.00'' @ ''.jpg'') = ''.jpg''"
    by (simp_all add: filepath_Ext_def)
  have n0: "''2020-01-01 00.00.00'' @ ''.jpg'' = ''2020-01-01 00.00.00.jpg''" by simp
  show ?thesis
    apply (subst guard_jpg[OF g1 e1])
    apply (simp only: parse_name_2020_1 sum.case run2_first option.case prod.case status.case)
    apply (subst guard_jpg[OF g0 e0])
    apply (simp only: parse_name_2020 sum.case mainLoop.simps(1) n0)
    done
qed

lemma run2_verify:
  "emit (verifyBackup defaultConfig
           (emit run2_afterFirst (AlreadyInFormat ''2020-01-01 00.00.00.jpg''))
           [''photos''] [''photos - Backup Exif'']) Completed
   = run2_done"
proof -
  let ?w = "emit run2_afterFirst (AlreadyInFormat ''2020-01-01 00.00.00.jpg'')"
  have e: "DoesFileExist (wfs ?w) [''photos'']" "DoesFileExist (wfs ?w) [''photos - Backup Exif'']"
    by (simp_all add: DoesFileExist_def emit_def run2_afterFirst_def photoDir_def backupOf_def)
  show ?thesis
    unfolding verifyBackup_counts[OF e]
    by (simp add: run2_afterFirst_def run2_done_def photoDir_def backupOf_def filtered_names
        os_RemoveAll_def emit_def)
qed

lemma second_run:
  "runOn (worldOf (photoDir [''2020-01-01 00.00.00.jpg'', ''2020-01-01 00.00.00-1.jpg'']))
   = Some (ExitOK, run2_done)"
proof -
  let ?names = "[''2020-01-01 00.00.00.jpg'', ''2020-01-01 00.00.00-1.jpg'']"
  let ?w = "worldOf (photoDir ?names)"
  let ?fs1 = "photoDir ?names @ backupOf [''2020-01-01 00.00.00-1.jpg'', ''2020-01-01 00.00.00.jpg'']"
  have x: "DoesFileExist (wfs ?w) [''photos'']"
    by (simp add: DoesFileExist_def worldOf_def photoDir_def)
  have k: "backupDirectory (wfs ?w) [''photos''] = (?fs1, Inr [''photos - Backup Exif''])"
    using run2_backup by (simp add: worldOf_def)
  have b: "emit (?w\<lparr>wfs := ?fs1\<rparr>) (BackupCreated [''photos - Backup Exif'']) = run2_backedUp"
    by (simp add: emit_def worldOf_def run2_backedUp_def)
  have l: "mainLoop stdlib defaultConfig
             [[''photos'', ''2020-01-01 00.00.00-1.jpg''], [''photos'', ''2020-01-01 00.00.00.jpg'']]
             (emit (?w\<lparr>wfs := ?fs1\<rparr>) (BackupCreated [''photos - Backup Exif'']))
           = Some (Returned, emit run2_afterFirst (AlreadyInFormat ''2020-01-01 00.00.00.jpg''))"
    unfolding b by (rule run2_loop)
  show ?thesis
    using runOn_completes[OF x k run2_files l] by (simp only: run2_verify)
qed


section \<open>Claims about the whole run\<close>

text \<open>
  C4.  Two pictures taken in the same second, \<open>a.jpg\<close> and \<open>b.jpg\<close>.  The first run
  names them \<open>2020-01-01 00.00.00.jpg\<close> and \<open>2020-01-01 00.00.00-1.jpg\<close> and removes
  its backup.  The name with the suffix \<open>-1\<close> does not parse under the format, so the
  second run, on the directory the first run left, does not skip that file: it renames
  it to \<open>2020-01-01 00.00.00-2.jpg\<close>.  A second run is not free of renames.
\<close>

theorem second_run_renames_again:
  "runOn (worldOf (photoDir [''a.jpg'', ''b.jpg''])) = Some (ExitOK, run1_done) \<and>
   wfs run1_done = photoDir [''2020-01-01 00.00.00.jpg'', ''2020-01-01 00.00.00-1.jpg''] \<and>
   time_Parse stdlib (fmtDesired defaultConfig) ''2020-01-01 00.00.00-1'' = Inl ParseError \<and>
   runOn (worldOf (wfs run1_done)) = Some (ExitOK, run2_done) \<and>
   wrenames run2_done
     = [([''photos'', ''2020-01-01 00.00.00-1.jpg''], [''photos'', ''2020-01-01 00.00.00-2.jpg''])]"
proof -
  have w: "wfs run1_done = photoDir [''2020-01-01 00.00.00.jpg'', ''2020-01-01 00.00.00-1.jpg'']"
    by (simp add: run1_done_def)
  have p: "time_Parse stdlib (fmtDesired defaultConfig) ''2020-01-01 00.00.00-1'' = Inl ParseError"
    by (simp add: stdlib_fields defaultConfig_def parse_name_2020_1)
  have r: "wrenames run2_done
     = [([''photos'', ''2020-01-01 00.00.00-1.jpg''], [''photos'', ''2020-01-01 00.00.00-2.jpg''])]"
    by (simp add: run2_done_def)
  from first_run w p second_run r show ?thesis by (simp only: simp_thms)
qed


lemma main_backup_failed:
  assumes "backupDirectory (wfs w) (filepath_Abs cwd (args ! 1)) = (fs1, Inl err)"
  shows "main lib cfg cwd args w
         = Some (if length args < 2 then (ExitFatal Usage, w)
                 else if \<not> DoesFileExist (wfs w) (filepath_Abs cwd (args ! 1))
                   then (ExitFatal (PathDoesNotExist (filepath_Abs cwd (args ! 1))), w)
                 else (ExitFatal (BackupFailed err), w\<lparr>wfs := fs1\<rparr>))"
  using assms unfolding main_def Let_def
  by (simp del: mainLoop.simps)

text \<open>
  C1.  If \<open>backupDirectory\<close> fails, \<open>main\<close> returns with a fatal exit, has issued no
  rename and has logged nothing beyond what was logged before; with two or more
  arguments and an existing path the exit is the failed backup, and the only change is
  what the backup wrote before it failed.  So a run that has issued a rename is a run
  whose \<open>backupDirectory\<close> returned a backup path.
\<close>

theorem no_rename_without_backup:
  "(backupDirectory (wfs w) (filepath_Abs cwd (args ! 1)) = (fs1, Inl err) \<longrightarrow>
      (\<exists>reason w'. main lib cfg cwd args w = Some (ExitFatal reason, w') \<and>
         wrenames w' = wrenames w \<and> wlog w' = wlog w \<and>
         (2 \<le> length args \<and> DoesFileExist (wfs w) (filepath_Abs cwd (args ! 1))
          \<longrightarrow> reason = BackupFailed err \<and> w' = w\<lparr>wfs := fs1\<rparr>))) \<and>
   (main lib cfg cwd args w = Some (ex, w2) \<and> wrenames w2 \<noteq> wrenames w \<longrightarrow>
      (\<exists>fs2 bk. backupDirectory (wfs w) (filepath_Abs cwd (args ! 1)) = (fs2, Inr bk)))"
proof (intro conjI impI)
  assume "backupDirectory (wfs w) (filepath_Abs cwd (args ! 1)) = (fs1, Inl err)"
  then show "\<exists>reason w'. main lib cfg cwd args w = Some (ExitFatal reason, w') \<and>
         wrenames w' = wrenames w \<and> wlog w' = wlog w \<and>
         (2 \<le> length args \<and> DoesFileExist (wfs w) (filepath_Abs cwd (args ! 1))
          \<longrightarrow> reason = BackupFailed err \<and> w' = w\<lparr>wfs := fs1\<rparr>)"
    by (simp add: main_backup_failed)
next
  assume a: "main lib cfg cwd args w = Some (ex, w2) \<and> wrenames w2 \<noteq> wrenames w"
  obtain fs2 r where b: "backupDirectory (wfs w) (filepath_Abs cwd (args ! 1)) = (fs2, r)"
    by (cases "backupDirectory (wfs w) (filepath_Abs cwd (args ! 1))")
  show "\<exists>fs2 bk. backupDirectory (wfs w) (filepath_Abs cwd (args ! 1)) = (fs2, Inr bk)"
  proof (cases r)
    case (Inl err)
    with b have "wrenames w2 = wrenames w"
      using a main_backup_failed[of w cwd args fs2 err lib cfg] by (auto split: if_splits)
    with a show ?thesis by simp
  next
    case (Inr bk)
    with b show ?thesis by blast
  qed
qed

theorem no_rename_without_backup_witness:
  "backupDirectory (photoDir [''a.jpg''] @ [([''photos - Backup Exif''], File [] 420)]) [''photos'']
   = (photoDir [''a.jpg''] @ [([''photos - Backup Exif''], File [] 420)], Inl ENOTDIR) \<and>
   runOn (worldOf (photoDir [''a.jpg''] @ [([''photos - Backup Exif''], File [] 420)]))
   = Some (ExitFatal (BackupFailed ENOTDIR),
           worldOf (photoDir [''a.jpg''] @ [([''photos - Backup Exif''], File [] 420)])) \<and>
   runOn (worldOf (photoDir [''a.jpg'', ''b.jpg''])) = Some (ExitOK, run1_done) \<and>
   wrenames run1_done \<noteq> wrenames (worldOf (photoDir [''a.jpg'', ''b.jpg''])) \<and>
   (\<exists>fs2 bk. backupDirectory (photoDir [''a.jpg'', ''b.jpg'']) [''photos''] = (fs2, Inr bk))"
proof -
  let ?bad = "photoDir [''a.jpg''] @ [([''photos - Backup Exif''], File [] 420)]"
  let ?args = "[''renamer'', ''/photos'']"
  have a: "filepath_Abs [] (?args ! 1) = [''photos'']" by (simp add: abs_photos)
  have wk: "filepath_Walk ?bad [''photos'']
            = Inr [([''photos''], Dir), ([''photos'', ''a.jpg''], photo)]"
    by (simp add: filepath_Walk_def photoDir_def)
  have k: "backupDirectory ?bad [''photos''] = (?bad, Inl ENOTDIR)"
    unfolding backupDirectory_def Let_def backupPath_photos wk
    by (simp add: fs_eval photoDir_def photo_def prefixes_backupPath)
  have k': "backupDirectory (wfs (worldOf ?bad)) (filepath_Abs [] (?args ! 1)) = (?bad, Inl ENOTDIR)"
    unfolding a using k by (simp add: worldOf_def)
  have x: "2 \<le> length ?args \<and> DoesFileExist (wfs (worldOf ?bad)) (filepath_Abs [] (?args ! 1))"
    unfolding a by (simp add: DoesFileExist_def worldOf_def photoDir_def)
  from no_rename_without_backup[where w = "worldOf ?bad" and cwd = "[]" and args = ?args
      and ?fs1.0 = ?bad and err = ENOTDIR and lib = stdlib and cfg = defaultConfig,
      THEN conjunct1, rule_format, OF k']
  obtain reason w' where m: "main stdlib defaultConfig [] ?args (worldOf ?bad) = Some (ExitFatal reason, w')"
    and i: "2 \<le> length ?args \<and> DoesFileExist (wfs (worldOf ?bad)) (filepath_Abs [] (?args ! 1))
            \<longrightarrow> reason = BackupFailed ENOTDIR \<and> w' = (worldOf ?bad)\<lparr>wfs := ?bad\<rparr>"
    by blast
  from i x have "reason = BackupFailed ENOTDIR" "w' = (worldOf ?bad)\<lparr>wfs := ?bad\<rparr>" by blast+
  with m have r: "runOn (worldOf ?bad) = Some (ExitFatal (BackupFailed ENOTDIR), worldOf ?bad)"
    by (simp add: runOn_def worldOf_def)
  have n: "wrenames run1_done \<noteq> wrenames (worldOf (photoDir [''a.jpg'', ''b.jpg'']))"
    by (simp add: run1_done_def worldOf_def)
  have f: "main stdlib defaultConfig [] ?args (worldOf (photoDir [''a.jpg'', ''b.jpg'']))
           = Some (ExitOK, run1_done) \<and>
           wrenames run1_done \<noteq> wrenames (worldOf (photoDir [''a.jpg'', ''b.jpg'']))"
    using first_run n by (simp add: runOn_def)
  from no_rename_without_backup[where w = "worldOf (photoDir [''a.jpg'', ''b.jpg''])" and cwd = "[]"
      and args = ?args and lib = stdlib and cfg = defaultConfig and ex = ExitOK and ?w2.0 = run1_done,
      THEN conjunct2, rule_format, OF f]
  have e: "\<exists>fs2 bk. backupDirectory (photoDir [''a.jpg'', ''b.jpg'']) [''photos''] = (fs2, Inr bk)"
    by (simp add: worldOf_def abs_photos)
  from k r first_run n e show ?thesis by blast
qed

end
